theory Spec2Isabelle
  imports Complex_Main
begin

section \<open>JavaScript values of the StudioManager dashboard (src/App.jsx)\<close>

text \<open>
  The records the dashboard works on are plain JavaScript objects read from the
  document store, so a field may be missing or hold a value of any primitive type.
  Numbers are the IEEE 754 double-precision values of the language. A finite double
  is written as the real number it denotes, and every arithmetic operation returns
  its exact result rounded to the nearest double, ties to the even significand, or an
  infinity when the rounded result is out of range. The two zeros are one value here:
  nothing the component computes tells them apart.
\<close>

datatype jsnum = NaN | Fin real | PosInfinity | NegInfinity

text \<open>
  Rounding to binary64: 53 bits of significand, exponents from -1022 (below it the
  subnormal numbers share the spacing \<open>2^-1074\<close>) to 1023.
\<close>

definition pow2 :: "int \<Rightarrow> real" where
  "pow2 k = (if 0 \<le> k then 2 ^ nat k else 1 / 2 ^ nat (- k))"

text \<open>
  The number of binary digits of a positive integer, and from it the integer part of
  the binary logarithm of a positive real: \<open>floor_log2 a = e\<close> when
  \<open>2^e \<le> a < 2^(e+1)\<close>.
\<close>

function bit_length :: "int \<Rightarrow> int" where
  "bit_length n = (if n \<le> 0 then 0 else bit_length (n div 2) + 1)"
  by auto
termination
  by (relation "measure nat") auto

declare bit_length.simps [simp del]

definition floor_log2 :: "real \<Rightarrow> int" where
  "floor_log2 a =
     (if 1 \<le> a then bit_length \<lfloor>a\<rfloor> - 1 else - bit_length (\<lceil>1 / a\<rceil> - 1))"

definition exponent :: "real \<Rightarrow> int" where
  "exponent x = max (floor_log2 \<bar>x\<bar>) (- 1022)"

definition round_half_even :: "real \<Rightarrow> int" where
  "round_half_even q =
     (let f = \<lfloor>q\<rfloor>; d = q - of_int f
      in if d < 1 / 2 then f else if 1 / 2 < d then f + 1 else if even f then f else f + 1)"

definition round_double :: "real \<Rightarrow> jsnum" where
  "round_double x =
     (if x = 0 then Fin 0
      else let ulp = pow2 (exponent x - 52);
               y = of_int (round_half_even (x / ulp)) * ulp
           in if 2 ^ 1024 \<le> \<bar>y\<bar> then (if 0 < x then PosInfinity else NegInfinity) else Fin y)"

text \<open>The \<^verbatim>\<open>+\<close> of two numbers.\<close>

fun js_add :: "jsnum \<Rightarrow> jsnum \<Rightarrow> jsnum" where
  "js_add NaN _ = NaN"
| "js_add _ NaN = NaN"
| "js_add (Fin a) (Fin b) = round_double (a + b)"
| "js_add PosInfinity NegInfinity = NaN"
| "js_add NegInfinity PosInfinity = NaN"
| "js_add PosInfinity _ = PosInfinity"
| "js_add _ PosInfinity = PosInfinity"
| "js_add NegInfinity _ = NegInfinity"
| "js_add _ NegInfinity = NegInfinity"

fun js_neg :: "jsnum \<Rightarrow> jsnum" where
  "js_neg NaN = NaN"
| "js_neg (Fin a) = Fin (- a)"
| "js_neg PosInfinity = NegInfinity"
| "js_neg NegInfinity = PosInfinity"

text \<open>
  The symbols \<open>0\<close>, \<open>+\<close> and \<open>-\<close> on numbers stand for these operations; no law of
  arithmetic comes with them (the addition of doubles is not associative).
\<close>

instantiation jsnum :: "{zero, plus, uminus, minus}"
begin

definition zero_jsnum :: jsnum where
  "zero_jsnum = Fin 0"

definition plus_jsnum :: "jsnum \<Rightarrow> jsnum \<Rightarrow> jsnum" where
  "plus_jsnum = js_add"

definition uminus_jsnum :: "jsnum \<Rightarrow> jsnum" where
  "uminus_jsnum = js_neg"

definition minus_jsnum :: "jsnum \<Rightarrow> jsnum \<Rightarrow> jsnum" where
  "minus_jsnum a b = js_add a (js_neg b)"

instance ..

end

text \<open>The comparison \<^verbatim>\<open>a <= b\<close> of two numbers: false as soon as one is NaN.\<close>

fun num_le :: "jsnum \<Rightarrow> jsnum \<Rightarrow> bool" where
  "num_le NaN _ = False"
| "num_le _ NaN = False"
| "num_le (Fin a) (Fin b) = (a \<le> b)"
| "num_le NegInfinity _ = True"
| "num_le _ PosInfinity = True"
| "num_le PosInfinity _ = False"
| "num_le _ NegInfinity = False"

text \<open>\<^verbatim>\<open>Math.max(a, b)\<close>: NaN as soon as one argument is NaN.\<close>

definition Math_max :: "jsnum \<Rightarrow> jsnum \<Rightarrow> jsnum" where
  "Math_max a b = (if a = NaN \<or> b = NaN then NaN else if num_le a b then b else a)"

text \<open>
  The primitive values a field can hold; \<open>JUndefined\<close> is what reading a missing
  field gives.
\<close>

datatype jsval = JUndefined | JNull | JBool bool | JNum jsnum | JStr string

type_synonym jsobj = "string \<rightharpoonup> jsval"

definition field :: "jsobj \<Rightarrow> string \<Rightarrow> jsval" where
  "field obj k = (case obj k of None \<Rightarrow> JUndefined | Some v \<Rightarrow> v)"

text \<open>
  \<^verbatim>\<open>Number(v)\<close>. The numeric reading of a string (the StringToNumber grammar of
  the language) is the parameter \<open>sn\<close>; everything proved below holds for every
  such reading.
\<close>

fun Number :: "(string \<Rightarrow> jsnum) \<Rightarrow> jsval \<Rightarrow> jsnum" where
  "Number sn JUndefined = NaN"
| "Number sn JNull = Fin 0"
| "Number sn (JBool b) = (if b then Fin 1 else Fin 0)"
| "Number sn (JNum n) = n"
| "Number sn (JStr s) = sn s"

text \<open>A number is falsy when it is NaN or zero; \<^verbatim>\<open>a || b\<close> on a number \<open>a\<close>.\<close>

definition num_or :: "jsnum \<Rightarrow> jsnum \<Rightarrow> jsnum" where
  "num_or a b = (if a = NaN \<or> a = Fin 0 then b else a)"

text \<open>\<^verbatim>\<open>a !== b\<close> is the negation of strict equality, under which NaN differs from itself.\<close>

fun strict_eq :: "jsval \<Rightarrow> jsval \<Rightarrow> bool" where
  "strict_eq (JNum a) (JNum b) = (a \<noteq> NaN \<and> a = b)"
| "strict_eq a b = (a = b)"

section \<open>Metrics: the \<^verbatim>\<open>stats\<close> memo\<close>

text \<open>
  \<^verbatim>\<open>
  const stats = useMemo(() => {
    const totalVentas = orders.reduce((sum, o) => sum + (Number(o.total) || 0), 0);
    const totalRecaudado = orders.reduce((sum, o) => sum + (Number(o.adelanto) || 0), 0);
    const totalGastos = expenses.reduce((sum, e) => sum + (Number(e.monto) || 0), 0);
    const pedidosPendientes = orders.filter(o => o.estado !== 'Entregado').length;
    return { totalVentas, totalRecaudado, totalGastos, pedidosPendientes,
             balance: totalRecaudado - totalGastos };
  }, [orders, expenses]);
  \<close>
\<close>

record stats_t =
  totalVentas :: jsnum
  totalRecaudado :: jsnum
  totalGastos :: jsnum
  pedidosPendientes :: nat
  balance :: jsnum

definition stats :: "(string \<Rightarrow> jsnum) \<Rightarrow> jsobj list \<Rightarrow> jsobj list \<Rightarrow> stats_t" where
  "stats sn orders expenses =
     (let totalVentas = foldl (\<lambda>sum od. sum + num_or (Number sn (field od ''total'')) (Fin 0)) (Fin 0) orders;
          totalRecaudado = foldl (\<lambda>sum od. sum + num_or (Number sn (field od ''adelanto'')) (Fin 0)) (Fin 0) orders;
          totalGastos = foldl (\<lambda>sum e. sum + num_or (Number sn (field e ''monto'')) (Fin 0)) (Fin 0) expenses;
          pedidosPendientes = length (filter (\<lambda>od. \<not> strict_eq (field od ''estado'') (JStr ''Entregado'')) orders)
      in \<lparr> totalVentas = totalVentas, totalRecaudado = totalRecaudado, totalGastos = totalGastos,
           pedidosPendientes = pedidosPendientes, balance = totalRecaudado - totalGastos \<rparr>)"

section \<open>Views derived from the snapshots\<close>

text \<open>\<^verbatim>\<open>orders.slice(0, 5)\<close>, the rows under "Pedidos Recientes".\<close>

definition pedidos_recientes :: "jsobj list \<Rightarrow> jsobj list" where
  "pedidos_recientes orders = take 5 orders"

text \<open>
  The relational \<^verbatim>\<open>a <= b\<close> of the language: two strings are compared as
  sequences of code units, anything else is compared as numbers.
\<close>

fun str_lt :: "string \<Rightarrow> string \<Rightarrow> bool" where
  "str_lt [] [] = False"
| "str_lt [] (y # ys) = True"
| "str_lt (x # xs) [] = False"
| "str_lt (x # xs) (y # ys) = ((of_char x :: nat) < of_char y \<or> (x = y \<and> str_lt xs ys))"

fun js_le :: "(string \<Rightarrow> jsnum) \<Rightarrow> jsval \<Rightarrow> jsval \<Rightarrow> bool" where
  "js_le sn (JStr s) (JStr t) = (\<not> str_lt t s)"
| "js_le sn a b = num_le (Number sn a) (Number sn b)"

text \<open>\<^verbatim>\<open>inventory.filter(i => i.stock <= i.minimo)\<close>, the rows under "Stock Bajo".\<close>

definition stock_bajo :: "(string \<Rightarrow> jsnum) \<Rightarrow> jsobj list \<Rightarrow> jsobj list" where
  "stock_bajo sn inventory = filter (\<lambda>i. js_le sn (field i ''stock'') (field i ''minimo'')) inventory"

text \<open>
  \<^verbatim>\<open><Badge status={item.stock <= item.minimo ? 'Bajo Stock' : 'Normal'}>\<close>
  (the inventory card of the second variant of the component).
\<close>

definition badge_status :: "(string \<Rightarrow> jsnum) \<Rightarrow> jsobj \<Rightarrow> string" where
  "badge_status sn item =
     (if js_le sn (field item ''stock'') (field item ''minimo'') then ''Bajo Stock'' else ''Normal'')"

section \<open>The component and its collaborators\<close>

text \<open>
  A document of a query snapshot: \<^verbatim>\<open>doc.id\<close> and \<^verbatim>\<open>doc.data()\<close>.
\<close>

record fsdoc =
  doc_id :: string
  doc_data :: jsobj

text \<open>\<^verbatim>\<open>doc => ({ id: doc.id, ...doc.data() })\<close>: the spread comes after \<open>id\<close>.\<close>

definition to_record :: "fsdoc \<Rightarrow> jsobj" where
  "to_record d = [''id'' \<mapsto> JStr (doc_id d)] ++ doc_data d"

text \<open>The three listeners of the subscription effect, named by the setter each one calls.\<close>

datatype synchronizer = SyncOrders | SyncExpenses | SyncInventory

text \<open>The calls made on the document store: collection name, document id, fields.\<close>

datatype store_call =
    AddDoc string jsobj
  | UpdateDoc string jsval jsobj
  | DeleteDoc string jsval

datatype outcome = Resolved | Rejected

text \<open>
  The state of \<^verbatim>\<open>App\<close>: its \<^verbatim>\<open>useState\<close> cells, the module-level \<open>db\<close>
  handle (present or not), and what the component has done to the outside: the calls
  sent to the store, the lines written with \<^verbatim>\<open>console.error\<close>, the listeners it has
  attached to the store and the cleanup function its subscription effect returned.
  \<open>awaiting\<close> counts the \<^verbatim>\<open>addData\<close> calls suspended at their \<^verbatim>\<open>await\<close>.

  \<open>valid_doc\<close> belongs to the store library the module imports, and never changes:
  it tells, for a collection name and an id, whether
  \<^verbatim>\<open>artifacts/<appId>/public/data/<collection>/<id>\<close> is the path of a document.
  The library decides this from the text of the segments (it refuses the empty id and
  the id \<open>a/b\<close>, for instance); the check is taken as given here.
\<close>

record app =
  activeTab :: string
  user :: "string option"
  orders :: "jsobj list"
  expenses :: "jsobj list"
  inventory :: "jsobj list"
  isModalOpen :: "string option"
  orderForm :: jsobj
  expenseForm :: jsobj
  inventoryForm :: jsobj
  db :: bool
  valid_doc :: "string \<Rightarrow> string \<Rightarrow> bool"
  mounted :: bool
  sent :: "store_call list"
  console :: "string list"
  awaiting :: nat
  listeners :: "(nat \<times> synchronizer) list"
  next_sub :: nat
  cleanup :: "(nat \<times> nat \<times> nat) option"

definition init :: "bool \<Rightarrow> (string \<Rightarrow> string \<Rightarrow> bool) \<Rightarrow> string \<Rightarrow> app" where
  "init d v today =
     \<lparr> activeTab = ''dashboard'', user = None, orders = [], expenses = [], inventory = [],
       isModalOpen = None,
       orderForm = [''cliente'' \<mapsto> JStr [], ''descripcion'' \<mapsto> JStr [], ''total'' \<mapsto> JNum (Fin 0),
                    ''adelanto'' \<mapsto> JNum (Fin 0), ''estado'' \<mapsto> JStr ''Pendiente''],
       expenseForm = [''concepto'' \<mapsto> JStr [], ''monto'' \<mapsto> JNum (Fin 0), ''fecha'' \<mapsto> JStr today],
       inventoryForm = [''item'' \<mapsto> JStr [], ''stock'' \<mapsto> JNum (Fin 0), ''minimo'' \<mapsto> JNum (Fin 5)],
       db = d, valid_doc = v, mounted = True, sent = [], console = [], awaiting = 0,
       listeners = [], next_sub = 0, cleanup = None \<rparr>"

subsection \<open>The subscription effect\<close>

text \<open>
  \<^verbatim>\<open>
  useEffect(() => {
    if (!user || !db) return;
    const unsubOrders = onSnapshot(paths.orders, (snapshot) => {
      setOrders(snapshot.docs.map(doc => ({ id: doc.id, ...doc.data() })));
    }, (err) => console.error("Error pedidos:", err));
    const unsubExpenses = onSnapshot(paths.expenses, ...);
    const unsubInventory = onSnapshot(paths.inventory, ...);
    return () => { unsubOrders(); unsubExpenses(); unsubInventory(); };
  }, [user]);
  \<close>
\<close>

text \<open>
  Modelled from the spec: the document store's \<^verbatim>\<open>onSnapshot\<close> and the function
  it returns are not code of this repository. Section 6 of the specification gives
  their contract: a subscription delivers snapshots "until explicitly unsubscribed".
  Here \<open>onSnapshot\<close> attaches a listener under a fresh number and \<open>unsubscribe\<close>
  detaches the listener of that number; the store calls attached listeners only
  (\<open>deliver\<close> and \<open>deliver_error\<close> below).
\<close>

definition onSnapshot :: "synchronizer \<Rightarrow> app \<Rightarrow> nat \<times> app" where
  "onSnapshot s st =
     (next_sub st, st\<lparr> listeners := listeners st @ [(next_sub st, s)], next_sub := Suc (next_sub st) \<rparr>)"

definition unsubscribe :: "nat \<Rightarrow> app \<Rightarrow> app" where
  "unsubscribe k st = st\<lparr> listeners := filter (\<lambda>l. fst l \<noteq> k) (listeners st) \<rparr>"

definition run_effect :: "app \<Rightarrow> app" where
  "run_effect st =
     (if user st = None \<or> \<not> db st then st\<lparr> cleanup := None \<rparr>
      else let (unsubOrders, st1) = onSnapshot SyncOrders st;
               (unsubExpenses, st2) = onSnapshot SyncExpenses st1;
               (unsubInventory, st3) = onSnapshot SyncInventory st2
           in st3\<lparr> cleanup := Some (unsubOrders, unsubExpenses, unsubInventory) \<rparr>)"

definition run_cleanup :: "app \<Rightarrow> app" where
  "run_cleanup st =
     (case cleanup st of
        None \<Rightarrow> st
      | Some (unsubOrders, unsubExpenses, unsubInventory) \<Rightarrow>
          (unsubscribe unsubInventory (unsubscribe unsubExpenses (unsubscribe unsubOrders st)))
            \<lparr> cleanup := None \<rparr>)"

text \<open>
  \<^verbatim>\<open>onAuthStateChanged(auth, setUser)\<close>: a new value of \<open>user\<close> re-renders,
  which runs the cleanup of the effect that depends on \<open>user\<close> and then the effect
  again; setting the value the cell already holds does nothing. The listener on the
  identity provider is detached when the component unmounts.
\<close>

definition setUser :: "string option \<Rightarrow> app \<Rightarrow> app" where
  "setUser u st =
     (if \<not> mounted st \<or> u = user st then st
      else run_effect (run_cleanup (st\<lparr> user := u \<rparr>)))"

definition unmount :: "app \<Rightarrow> app" where
  "unmount st = (if mounted st then (run_cleanup st)\<lparr> mounted := False \<rparr> else st)"

text \<open>
  Modelled from the spec: when the store calls a listener is the store's business, not
  this repository's. By the same contract it calls the listener attached under number
  \<open>k\<close> only while it is attached; what the listener then does is the callback
  of the source, and \<open>deliver_error\<close> is its error callback.
\<close>

definition deliver :: "nat \<Rightarrow> fsdoc list \<Rightarrow> app \<Rightarrow> app" where
  "deliver k docs st =
     (case map_of (listeners st) k of
        None \<Rightarrow> st
      | Some SyncOrders \<Rightarrow> st\<lparr> orders := map to_record docs \<rparr>
      | Some SyncExpenses \<Rightarrow> st\<lparr> expenses := map to_record docs \<rparr>
      | Some SyncInventory \<Rightarrow> st\<lparr> inventory := map to_record docs \<rparr>)"

definition deliver_error :: "nat \<Rightarrow> app \<Rightarrow> app" where
  "deliver_error k st =
     (case map_of (listeners st) k of
        None \<Rightarrow> st
      | Some SyncOrders \<Rightarrow> st\<lparr> console := console st @ [''Error pedidos:''] \<rparr>
      | Some SyncExpenses \<Rightarrow> st\<lparr> console := console st @ [''Error finanzas:''] \<rparr>
      | Some SyncInventory \<Rightarrow> st\<lparr> console := console st @ [''Error inventario:''] \<rparr>)"

subsection \<open>The write path\<close>

text \<open>
  \<^verbatim>\<open>
  const addData = async (type, data) => {
    try {
      const col = collection(db, 'artifacts', appId, 'public', 'data', type);
      await addDoc(col, { ...data, createdAt: new Date().toISOString() });
      setIsModalOpen(null);
    } catch (e) { console.error("Error add:", e); }
  };
  \<close>
  The function runs in two pieces. Up to the \<^verbatim>\<open>await\<close> it builds the document and
  hands it to the store (\<open>collection\<close> throws when \<open>db\<close> is undefined, which the
  \<^verbatim>\<open>catch\<close> logs). When the store has settled the call, the rest runs.
  \<open>now\<close> is the reading of the clock, \<^verbatim>\<open>new Date().toISOString()\<close>.
\<close>

definition addData :: "string \<Rightarrow> jsobj \<Rightarrow> string \<Rightarrow> app \<Rightarrow> app" where
  "addData type data now st =
     (if db st
      then st\<lparr> sent := sent st @ [AddDoc type (data(''createdAt'' \<mapsto> JStr now))],
               awaiting := Suc (awaiting st) \<rparr>
      else st\<lparr> console := console st @ [''Error add:''] \<rparr>)"

definition addData_settled :: "outcome \<Rightarrow> app \<Rightarrow> app" where
  "addData_settled r st =
     (if awaiting st = 0 then st
      else case r of
             Resolved \<Rightarrow> st\<lparr> isModalOpen := None, awaiting := awaiting st - 1 \<rparr>
           | Rejected \<Rightarrow> st\<lparr> console := console st @ [''Error add:''], awaiting := awaiting st - 1 \<rparr>)"

text \<open>
  \<^verbatim>\<open>
  const updateStatus = async (id, newStatus) => {
    const docRef = doc(db, 'artifacts', appId, 'public', 'data', 'orders', id);
    await updateDoc(docRef, { estado: newStatus });
  };
  const deleteItem = async (type, id) => {
    const docRef = doc(db, 'artifacts', appId, 'public', 'data', type, id);
    await deleteDoc(docRef);
  };
  \<close>
  Nothing follows the \<^verbatim>\<open>await\<close> and nothing catches: whether the store resolves
  or rejects the call, the component does nothing more.

  \<open>doc\<close> builds the reference, or throws: when \<open>db\<close> is undefined, when the id is
  not a string (it calls a string method on every segment), and when the library
  refuses the path. \<open>None\<close> is the throw; then the function ends there and
  \<open>updateDoc\<close> or \<open>deleteDoc\<close> is never called.
\<close>

definition doc :: "app \<Rightarrow> string \<Rightarrow> jsval \<Rightarrow> (string \<times> jsval) option" where
  "doc st coll ident =
     (if \<not> db st then None
      else case ident of
             JStr k \<Rightarrow> if valid_doc st coll k then Some (coll, ident) else None
           | _ \<Rightarrow> None)"

text \<open>\<^verbatim>\<open>updateDoc(docRef, fields)\<close> and \<^verbatim>\<open>deleteDoc(docRef)\<close>, on a reference that exists.\<close>

definition updateDoc :: "string \<Rightarrow> jsval \<Rightarrow> jsobj \<Rightarrow> app \<Rightarrow> app" where
  "updateDoc coll ident flds st = st\<lparr> sent := sent st @ [UpdateDoc coll ident flds] \<rparr>"

definition deleteDoc :: "string \<Rightarrow> jsval \<Rightarrow> app \<Rightarrow> app" where
  "deleteDoc coll ident st = st\<lparr> sent := sent st @ [DeleteDoc coll ident] \<rparr>"

definition updateStatus :: "jsval \<Rightarrow> jsval \<Rightarrow> app \<Rightarrow> app" where
  "updateStatus ident newStatus st =
     (case doc st ''orders'' ident of
        None \<Rightarrow> st
      | Some (coll, k) \<Rightarrow> updateDoc coll k [''estado'' \<mapsto> newStatus] st)"

definition deleteItem :: "string \<Rightarrow> jsval \<Rightarrow> app \<Rightarrow> app" where
  "deleteItem type ident st =
     (case doc st type ident of
        None \<Rightarrow> st
      | Some (coll, k) \<Rightarrow> deleteDoc coll k st)"

text \<open>
  The two buttons of an inventory card:
  \<^verbatim>\<open>
  updateDoc(doc(db, ..., 'inventory', i.id), { stock: Math.max(0, i.stock - 1) })
  updateDoc(doc(db, ..., 'inventory', i.id), { stock: i.stock + 1 })
  \<close>
  The \<^verbatim>\<open>-\<close> makes a number of its left operand; the \<^verbatim>\<open>+\<close> appends to a string.
  The reference is built first, so a throw of \<open>doc\<close> ends the handler before
  anything is sent.
\<close>

definition decremented :: "(string \<Rightarrow> jsnum) \<Rightarrow> jsobj \<Rightarrow> jsnum" where
  "decremented sn i = Math_max (Fin 0) (Number sn (field i ''stock'') - Fin 1)"

definition decrement :: "(string \<Rightarrow> jsnum) \<Rightarrow> jsobj \<Rightarrow> app \<Rightarrow> app" where
  "decrement sn i st =
     (case doc st ''inventory'' (field i ''id'') of
        None \<Rightarrow> st
      | Some (coll, k) \<Rightarrow> updateDoc coll k [''stock'' \<mapsto> JNum (decremented sn i)] st)"

definition incremented :: "(string \<Rightarrow> jsnum) \<Rightarrow> jsobj \<Rightarrow> jsval" where
  "incremented sn i =
     (case field i ''stock'' of
        JStr s \<Rightarrow> JStr (s @ ''1'')
      | v \<Rightarrow> JNum (Number sn v + Fin 1))"

definition increment :: "(string \<Rightarrow> jsnum) \<Rightarrow> jsobj \<Rightarrow> app \<Rightarrow> app" where
  "increment sn i st =
     (case doc st ''inventory'' (field i ''id'') of
        None \<Rightarrow> st
      | Some (coll, k) \<Rightarrow> updateDoc coll k [''stock'' \<mapsto> incremented sn i] st)"

subsection \<open>Events\<close>

text \<open>
  Everything happens on one event loop: one event at a time, each handled to the end.
\<close>

datatype event =
    AuthStateChanged "string option"
  | SnapshotDelivered nat "fsdoc list"
  | SnapshotFailed nat
  | Unmount
  | AddData string jsobj string
  | AddDocSettled outcome
  | UpdateStatus jsval jsval
  | DeleteItem string jsval
  | Decrement jsobj
  | Increment jsobj
  | SetActiveTab string
  | SetIsModalOpen "string option"
  | SetOrderForm jsobj
  | SetExpenseForm jsobj
  | SetInventoryForm jsobj

fun step :: "(string \<Rightarrow> jsnum) \<Rightarrow> event \<Rightarrow> app \<Rightarrow> app" where
  "step sn (AuthStateChanged u) st = setUser u st"
| "step sn (SnapshotDelivered k docs) st = deliver k docs st"
| "step sn (SnapshotFailed k) st = deliver_error k st"
| "step sn Unmount st = unmount st"
| "step sn (AddData type data now) st = addData type data now st"
| "step sn (AddDocSettled r) st = addData_settled r st"
| "step sn (UpdateStatus ident newStatus) st = updateStatus ident newStatus st"
| "step sn (DeleteItem type ident) st = deleteItem type ident st"
| "step sn (Decrement i) st = decrement sn i st"
| "step sn (Increment i) st = increment sn i st"
| "step sn (SetActiveTab t) st = st\<lparr> activeTab := t \<rparr>"
| "step sn (SetIsModalOpen m) st = st\<lparr> isModalOpen := m \<rparr>"
| "step sn (SetOrderForm f) st = st\<lparr> orderForm := f \<rparr>"
| "step sn (SetExpenseForm f) st = st\<lparr> expenseForm := f \<rparr>"
| "step sn (SetInventoryForm f) st = st\<lparr> inventoryForm := f \<rparr>"

fun run :: "(string \<Rightarrow> jsnum) \<Rightarrow> event list \<Rightarrow> app \<Rightarrow> app" where
  "run sn [] st = st"
| "run sn (e # es) st = run sn es (step sn e st)"

text \<open>
  Every listener attached to the store has a number that was already given out, and
  so has every number held by the cleanup function.
\<close>

definition well_formed :: "app \<Rightarrow> bool" where
  "well_formed st =
     ((\<forall>l \<in> set (listeners st). fst l < next_sub st) \<and>
      (case cleanup st of None \<Rightarrow> True
       | Some (a, b, c) \<Rightarrow> a < next_sub st \<and> b < next_sub st \<and> c < next_sub st))"

text \<open>A number that was given out and has no listener attached any more.\<close>

definition detached :: "nat \<Rightarrow> app \<Rightarrow> bool" where
  "detached k st = (k < next_sub st \<and> k \<notin> fst ` set (listeners st))"

section \<open>What the specification says, in its own words\<close>

text \<open>
  Section 4.4: the sums run over "the numeric value" of a field, and a field that is
  missing or does not coerce to a number is "treated as 0".
\<close>

definition spec_contribution :: "(string \<Rightarrow> jsnum) \<Rightarrow> jsval \<Rightarrow> jsnum" where
  "spec_contribution sn v = (if v = JUndefined \<or> Number sn v = NaN then Fin 0 else Number sn v)"

text \<open>
  Section 4.4 again: the aggregator is "a pure fold over two sequences". The sum of a
  sequence of numbers is accumulated from 0, left to right, in the arithmetic of the
  language.
\<close>

definition double_sum :: "jsnum list \<Rightarrow> jsnum" where
  "double_sum xs = foldl (+) (Fin 0) xs"

text \<open>The three local snapshots, and the three forms.\<close>

definition snapshots :: "app \<Rightarrow> jsobj list \<times> jsobj list \<times> jsobj list" where
  "snapshots st = (orders st, expenses st, inventory st)"

definition forms :: "app \<Rightarrow> jsobj \<times> jsobj \<times> jsobj" where
  "forms st = (orderForm st, expenseForm st, inventoryForm st)"

section \<open>Example data\<close>

text \<open>The scenario of section 8 of the specification.\<close>

definition ex_orders :: "jsobj list" where
  "ex_orders =
     [[''total'' \<mapsto> JNum (Fin 1000), ''adelanto'' \<mapsto> JNum (Fin 200), ''estado'' \<mapsto> JStr ''Pendiente''],
      [''total'' \<mapsto> JNum (Fin 500), ''adelanto'' \<mapsto> JNum (Fin 500), ''estado'' \<mapsto> JStr ''Entregado'']]"

definition ex_expenses :: "jsobj list" where
  "ex_expenses = [[''monto'' \<mapsto> JNum (Fin 300)]]"

text \<open>
  A mounted component with a store handle, after the identity provider has signed a user
  in. Its library takes as a document id any non-empty string without a slash.
\<close>

definition ex_valid_doc :: "string \<Rightarrow> string \<Rightarrow> bool" where
  "ex_valid_doc coll k = (k \<noteq> [] \<and> CHR ''/'' \<notin> set k)"

definition ex_session :: app where
  "ex_session =
     run (\<lambda>s. NaN) [AuthStateChanged (Some ''u1'')] (init True ex_valid_doc ''2024-01-01'')"

definition ex_open :: app where
  "ex_open = step (\<lambda>s. NaN) (SetIsModalOpen (Some ''order'')) ex_session"

text \<open>A document the store knows as \<open>A1\<close> whose data has a field named \<open>id\<close>.\<close>

definition ex_shadow_doc :: fsdoc where
  "ex_shadow_doc = \<lparr> doc_id = ''A1'', doc_data = [''id'' \<mapsto> JStr ''X9'', ''cliente'' \<mapsto> JStr ''Ana''] \<rparr>"

definition ex_doc :: "string \<Rightarrow> fsdoc" where
  "ex_doc n = \<lparr> doc_id = n, doc_data = [''cliente'' \<mapsto> JStr n, ''createdAt'' \<mapsto> JStr n] \<rparr>"

definition ex_loaded :: app where
  "ex_loaded = step (\<lambda>s. NaN) (SnapshotDelivered 0 [ex_doc ''7'']) ex_session"

text \<open>\<^verbatim>\<open>Number.MAX_VALUE\<close>, the largest double.\<close>

definition MAX_VALUE :: real where
  "MAX_VALUE = (2 ^ 53 - 1) * 2 ^ 971"

definition ex_item :: "real \<Rightarrow> real \<Rightarrow> jsobj" where
  "ex_item s m =
     [''id'' \<mapsto> JStr ''i1'', ''item'' \<mapsto> JStr ''papel'', ''stock'' \<mapsto> JNum (Fin s), ''minimo'' \<mapsto> JNum (Fin m)]"

section \<open>Rounding\<close>

lemma pow2_powr: "pow2 k = 2 powr (of_int k)"
  by (simp add: pow2_def powr_int)

lemma pow2_pos: "0 < pow2 k"
  by (simp add: pow2_powr)

lemma pow2_add: "pow2 (j + k) = pow2 j * pow2 k"
  by (simp add: pow2_powr powr_add)

lemma pow2_nat: "0 \<le> k \<Longrightarrow> pow2 k = of_int (2 ^ nat k)"
  by (simp add: pow2_def)

lemma pow2_mono: "j \<le> k \<Longrightarrow> pow2 j \<le> pow2 k"
  by (simp add: pow2_powr)

lemma pow2_strict_mono: "j < k \<Longrightarrow> pow2 j < pow2 k"
  by (simp add: pow2_powr)

lemma round_half_even_int: "round_half_even (of_int m) = m"
  by (simp add: round_half_even_def)

lemma bit_length_pos: "0 < n \<Longrightarrow> 0 < bit_length n"
proof (induction n rule: bit_length.induct)
  case (1 n)
  then have "bit_length n = bit_length (n div 2) + 1"
    by (simp add: bit_length.simps [of n])
  moreover have "0 \<le> bit_length (n div 2)"
  proof (cases "n div 2 \<le> 0")
    case True
    then show ?thesis by (simp add: bit_length.simps [of "n div 2"])
  next
    case False
    with 1 show ?thesis by simp
  qed
  ultimately show ?case by simp
qed

lemma bit_length_bounds:
  "0 < n \<Longrightarrow> 2 ^ nat (bit_length n - 1) \<le> n \<and> n < 2 ^ nat (bit_length n)"
proof (induction n rule: bit_length.induct)
  case (1 n)
  have b: "bit_length n = bit_length (n div 2) + 1"
    using 1(2) by (simp add: bit_length.simps [of n])
  show ?case
  proof (cases "n div 2 \<le> 0")
    case True
    with 1(2) have "n = 1" by linarith
    then show ?thesis by (simp add: bit_length.simps)
  next
    case False
    with 1 have IH: "2 ^ nat (bit_length (n div 2) - 1) \<le> n div 2" "n div 2 < 2 ^ nat (bit_length (n div 2))"
      by simp_all
    from False have pos: "0 < bit_length (n div 2)"
      by (simp add: bit_length_pos)
    then have "nat (bit_length n - 1) = Suc (nat (bit_length (n div 2) - 1))"
      using b by simp
    then have "(2::int) ^ nat (bit_length n - 1) = 2 * 2 ^ nat (bit_length (n div 2) - 1)"
      by simp
    also have "\<dots> \<le> 2 * (n div 2)" using IH(1) by simp
    also have "\<dots> \<le> n" by simp
    finally have lo: "2 ^ nat (bit_length n - 1) \<le> n" .
    have "nat (bit_length n) = Suc (nat (bit_length (n div 2)))"
      using b pos by simp
    then have p: "(2::int) ^ nat (bit_length n) = 2 * 2 ^ nat (bit_length (n div 2))"
      by simp
    have "n < 2 * (n div 2) + 2" by linarith
    also have "\<dots> \<le> 2 * 2 ^ nat (bit_length (n div 2))" using IH(2) by simp
    finally have "n < 2 ^ nat (bit_length n)" using p by simp
    with lo show ?thesis by simp
  qed
qed

lemma floor_log2_bounds:
  assumes "0 < a"
  shows "pow2 (floor_log2 a) \<le> a \<and> a < pow2 (floor_log2 a + 1)"
proof (cases "1 \<le> a")
  case True
  define N where "N = \<lfloor>a\<rfloor>"
  have N: "0 < N" "of_int N \<le> a" "a < of_int N + 1"
    using True by (simp_all add: N_def)
  from bit_length_bounds [OF N(1)]
  have b: "2 ^ nat (bit_length N - 1) \<le> N" "N < 2 ^ nat (bit_length N)" by simp_all
  have pos: "0 < bit_length N"
    using N(1) by (rule bit_length_pos)
  have f: "floor_log2 a = bit_length N - 1"
    using True by (simp add: floor_log2_def N_def)
  have "pow2 (floor_log2 a) = of_int (2 ^ nat (bit_length N - 1))"
    using pos by (simp add: f pow2_def)
  also have "\<dots> \<le> of_int N" using b(1) by (simp only: of_int_le_iff)
  finally have lo: "pow2 (floor_log2 a) \<le> a" using N(2) by simp
  have "pow2 (floor_log2 a + 1) = of_int (2 ^ nat (bit_length N))"
    using pos by (simp add: f pow2_def)
  moreover have "N + 1 \<le> 2 ^ nat (bit_length N)"
    using b(2) by simp
  then have "(of_int (N + 1) :: real) \<le> of_int (2 ^ nat (bit_length N))"
    by (simp only: of_int_le_iff)
  ultimately have "a < pow2 (floor_log2 a + 1)" using N(3) by simp
  with lo show ?thesis by simp
next
  case False
  with assms have a: "0 < a" "a < 1" by simp_all
  define M where "M = \<lceil>1 / a\<rceil>"
  have t: "1 < 1 / a" using a by simp
  have M: "1 / a \<le> of_int M" "of_int M - 1 < 1 / a" "1 < M"
    using t by (simp_all add: M_def less_ceiling_iff) linarith
  define C where "C = bit_length (M - 1)"
  have Mpos: "0 < M - 1" using M(3) by simp
  from bit_length_bounds [OF Mpos]
  have b: "2 ^ nat (C - 1) \<le> M - 1" "M - 1 < 2 ^ nat C" by (simp_all add: C_def)
  have Cpos: "0 < C"
    unfolding C_def using Mpos by (rule bit_length_pos)
  have f: "floor_log2 a = - C"
    using False by (simp add: floor_log2_def M_def C_def)
  have pC: "pow2 (- C) = 1 / 2 ^ nat C" and pC1: "pow2 (- C + 1) = 1 / 2 ^ nat (C - 1)"
    using Cpos by (simp_all add: pow2_def)
  have "M \<le> 2 ^ nat C" using b(2) by simp
  then have "(of_int M :: real) \<le> of_int (2 ^ nat C)"
    by (simp only: of_int_le_iff)
  with M(1) have "1 / a \<le> of_int (2 ^ nat C)" by (rule order_trans)
  then have "1 / a \<le> 2 ^ nat C" by simp
  then have "1 / 2 ^ nat C \<le> a"
    using a(1) by (simp add: field_simps)
  then have lo: "pow2 (floor_log2 a) \<le> a"
    by (simp add: f pC)
  have "(of_int (2 ^ nat (C - 1)) :: real) \<le> of_int (M - 1)"
    using b(1) by (simp only: of_int_le_iff)
  also have "\<dots> < 1 / a" using M(2) by simp
  finally have "2 ^ nat (C - 1) < 1 / a" by simp
  then have "a < 1 / 2 ^ nat (C - 1)"
    using a(1) by (simp add: field_simps)
  then have "a < pow2 (floor_log2 a + 1)"
    unfolding f pC1 .
  with lo show ?thesis by simp
qed

lemma floor_log2_between:
  assumes "pow2 j \<le> x" and "x < pow2 k"
  shows "j \<le> floor_log2 x \<and> floor_log2 x < k"
proof -
  have pos: "0 < x" using assms(1) pow2_pos [of j] by linarith
  note b = floor_log2_bounds [OF pos]
  have "floor_log2 x < k"
  proof (rule ccontr)
    assume "\<not> floor_log2 x < k"
    then have "pow2 k \<le> pow2 (floor_log2 x)" by (simp add: pow2_mono)
    with b assms(2) show False by linarith
  qed
  moreover have "j \<le> floor_log2 x"
  proof (rule ccontr)
    assume "\<not> j \<le> floor_log2 x"
    then have "pow2 (floor_log2 x + 1) \<le> pow2 j" by (simp add: pow2_mono)
    with b assms(1) show False by linarith
  qed
  ultimately show ?thesis by simp
qed

text \<open>It is the integer part of the binary logarithm.\<close>

lemma floor_log2_log: "0 < a \<Longrightarrow> floor_log2 a = \<lfloor>log 2 a\<rfloor>"
proof -
  assume pos: "0 < a"
  note b = floor_log2_bounds [OF pos]
  have "of_int (floor_log2 a) \<le> log 2 a"
    using b pos by (simp add: le_log_iff pow2_powr)
  moreover have "log 2 a < of_int (floor_log2 a + 1)"
    using b pos by (simp add: log_less_iff pow2_powr del: of_int_add)
  ultimately show ?thesis
    by (simp add: floor_unique)
qed


text \<open>
  A real \<open>m * 2^k\<close> with \<open>|m| < 2^53\<close> and \<open>k \<ge> -1074\<close>, below \<open>2^1024\<close>, is a double:
  rounding leaves it as it is. So is every integer below \<open>2^53\<close> in absolute value.
\<close>

lemma round_double_representable:
  assumes x: "x = of_int m * pow2 k" and m: "\<bar>m\<bar> < 2 ^ 53" and k: "- 1074 \<le> k"
    and big: "\<bar>x\<bar> < 2 ^ 1024"
  shows "round_double x = Fin x"
proof (cases "m = 0")
  case True
  with x show ?thesis by (simp add: round_double_def)
next
  case False
  then have m1: "1 \<le> \<bar>m\<bar>" by linarith
  have absx: "\<bar>x\<bar> = of_int \<bar>m\<bar> * pow2 k"
    using x pow2_pos [of k] by (simp add: abs_mult)
  have lo: "pow2 k \<le> \<bar>x\<bar>"
  proof -
    have "1 * pow2 k \<le> of_int \<bar>m\<bar> * pow2 k"
      using m1 pow2_pos [of k] by (intro mult_right_mono) simp_all
    then show ?thesis using absx by simp
  qed
  have hi: "\<bar>x\<bar> < pow2 (k + 53)"
  proof -
    have "(of_int \<bar>m\<bar> :: real) < of_int (2 ^ 53)"
      using m by (simp only: of_int_less_iff)
    then have "of_int \<bar>m\<bar> * pow2 k < of_int (2 ^ 53) * pow2 k"
      using pow2_pos [of k] by (intro mult_strict_right_mono) simp_all
    moreover have "pow2 (k + 53) = pow2 53 * pow2 k"
      by (simp add: pow2_add mult.commute)
    moreover have "pow2 53 = of_int (2 ^ 53)"
      by (simp add: pow2_def)
    ultimately show ?thesis using absx by simp
  qed
  from floor_log2_between [OF lo hi]
  have e: "k \<le> floor_log2 \<bar>x\<bar>" "floor_log2 \<bar>x\<bar> < k + 53" by simp_all
  define E where "E = exponent x - 52"
  have Ek: "E \<le> k"
    using e k by (simp add: E_def exponent_def)
  define j where "j = k - E"
  have j0: "0 \<le> j" using Ek by (simp add: j_def)
  have kj: "k = j + E" by (simp add: j_def)
  have quot: "x / pow2 E = of_int (m * 2 ^ nat j)"
  proof -
    have "x = of_int m * pow2 j * pow2 E"
      using x by (simp add: kj pow2_add)
    then have "x / pow2 E = of_int m * pow2 j"
      using pow2_pos [of E] by simp
    also have "\<dots> = of_int (m * 2 ^ nat j)"
      using j0 by (simp add: pow2_nat)
    finally show ?thesis .
  qed
  have restore: "of_int (m * 2 ^ nat j) * pow2 E = x"
    using quot pow2_pos [of E] by (metis less_numeral_extra(3) nonzero_eq_divide_eq)
  have x0: "x \<noteq> 0"
    using lo pow2_pos [of k] by auto
  show ?thesis
    using x0 big
    by (simp add: round_double_def Let_def E_def [symmetric] quot round_half_even_int restore
        del: of_int_mult of_int_power)
qed

lemma round_double_int:
  assumes "\<bar>n\<bar> < 2 ^ 53"
  shows "round_double (of_int n) = Fin (of_int n)"
proof (rule round_double_representable [where m = n and k = 0])
  show "of_int n = of_int n * pow2 0" by (simp add: pow2_def)
  show "\<bar>n\<bar> < 2 ^ 53" by fact
  show "- 1074 \<le> (0::int)" by simp
  have "\<bar>(of_int n :: real)\<bar> < of_int (2 ^ 53)"
    using assms by (simp only: of_int_less_iff flip: of_int_abs)
  also have "\<dots> < 2 ^ 1024" by simp
  finally show "\<bar>(of_int n :: real)\<bar> < 2 ^ 1024" .
qed

lemma round_double_zero: "round_double 0 = Fin 0"
  by (simp add: round_double_def)

lemma round_double_not_NaN: "round_double x \<noteq> NaN"
  by (simp add: round_double_def Let_def)

lemma round_double_numeral:
  "(numeral w :: int) < 2 ^ 53 \<Longrightarrow> round_double (numeral w) = Fin (numeral w)"
  using round_double_int [of "numeral w"] by simp

lemma round_double_neg_numeral:
  "(numeral w :: int) < 2 ^ 53 \<Longrightarrow> round_double (- numeral w) = Fin (- numeral w)"
  using round_double_int [of "- numeral w"] by simp

lemma round_double_one: "round_double 1 = Fin 1"
  using round_double_int [of 1] by simp

lemma round_double_neg_one: "round_double (- 1) = Fin (- 1)"
  using round_double_int [of "- 1"] by simp

lemmas round_double_simps =
  round_double_zero round_double_one round_double_neg_one round_double_numeral round_double_neg_numeral

lemma js_add_int:
  "\<bar>a + n\<bar> < 2 ^ 53 \<Longrightarrow> Fin (of_int a) + Fin (of_int n) = Fin (of_int (a + n))"
  using round_double_int [of "a + n"] by (simp add: plus_jsnum_def)

lemma foldl_add_int:
  "\<bar>a\<bar> + (\<Sum>n\<leftarrow>ns. \<bar>n\<bar>) < 2 ^ 53 \<Longrightarrow>
   foldl (+) (Fin (of_int a)) (map (\<lambda>n. Fin (of_int n)) ns) = Fin (of_int (a + sum_list ns))"
proof (induction ns arbitrary: a)
  case Nil
  then show ?case by simp
next
  case (Cons n ns)
  have "\<bar>a + n\<bar> \<le> \<bar>a\<bar> + \<bar>n\<bar>" by simp
  moreover have "0 \<le> (\<Sum>n\<leftarrow>ns. \<bar>n\<bar>)" by (induction ns) simp_all
  ultimately have small: "\<bar>a + n\<bar> < 2 ^ 53" and rest: "\<bar>a + n\<bar> + (\<Sum>n\<leftarrow>ns. \<bar>n\<bar>) < 2 ^ 53"
    using Cons.prems by simp_all
  from Cons.IH [OF rest] js_add_int [OF small] show ?case
    by (simp add: add.assoc)
qed

lemma double_sum_int:
  "(\<Sum>n\<leftarrow>ns. \<bar>n\<bar>) < 2 ^ 53 \<Longrightarrow>
   double_sum (map (\<lambda>n. Fin (of_int n)) ns) = Fin (of_int (sum_list ns))"
  using foldl_add_int [of 0 ns] by (simp add: double_sum_def)

text \<open>Rounding when the binade is known.\<close>

lemma exponent_at:
  assumes "pow2 e \<le> \<bar>x\<bar>" and "\<bar>x\<bar> < pow2 (e + 1)" and "- 1022 \<le> e"
  shows "exponent x = e"
proof -
  from floor_log2_between [OF assms(1,2)] have "floor_log2 \<bar>x\<bar> = e" by simp
  with assms(3) show ?thesis by (simp add: exponent_def)
qed

lemma round_2_53_plus_1: "round_double (9007199254740992 + 1) = Fin 9007199254740992"
proof -
  have e: "exponent (9007199254740993 :: real) = 53"
    by (rule exponent_at) (simp_all add: pow2_def)
  have r: "round_half_even (9007199254740993 / 2) = 4503599627370496"
    by (simp add: round_half_even_def Let_def)
  show ?thesis
    by (simp add: round_double_def Let_def e pow2_def r)
qed

text \<open>Rounding keeps the sign.\<close>

lemma round_half_even_nonneg: "0 \<le> q \<Longrightarrow> 0 \<le> round_half_even q"
  by (simp add: round_half_even_def Let_def)

lemma round_half_even_nonpos: "q \<le> 0 \<Longrightarrow> round_half_even q \<le> 0"
proof -
  assume q: "q \<le> 0"
  then have f: "\<lfloor>q\<rfloor> \<le> 0" by (simp add: floor_le_iff)
  show ?thesis
  proof (cases "\<lfloor>q\<rfloor> = 0")
    case True
    then have "0 \<le> q" by (metis of_int_0 of_int_floor_le)
    with q have "q = 0" by simp
    then show ?thesis by (simp add: round_half_even_def)
  next
    case False
    with f have "\<lfloor>q\<rfloor> + 1 \<le> 0" by linarith
    with f show ?thesis by (simp add: round_half_even_def Let_def)
  qed
qed

lemma round_double_nonneg:
  assumes "0 \<le> x"
  shows "round_double x = PosInfinity \<or> (\<exists>y. 0 \<le> y \<and> round_double x = Fin y)"
proof (cases "x = 0")
  case True
  then show ?thesis by (simp add: round_double_def)
next
  case False
  with assms have x: "0 < x" by simp
  have "0 \<le> x / pow2 (exponent x - 52)"
    using x pow2_pos [of "exponent x - 52"] by simp
  then have "0 \<le> round_half_even (x / pow2 (exponent x - 52))"
    by (rule round_half_even_nonneg)
  then have "0 \<le> of_int (round_half_even (x / pow2 (exponent x - 52))) * pow2 (exponent x - 52)"
    using pow2_pos [of "exponent x - 52"] by simp
  with x show ?thesis
    by (simp add: round_double_def Let_def)
qed

lemma round_double_nonpos:
  assumes "x \<le> 0"
  shows "round_double x = NegInfinity \<or> (\<exists>y. y \<le> 0 \<and> round_double x = Fin y)"
proof (cases "x = 0")
  case True
  then show ?thesis by (simp add: round_double_def)
next
  case False
  with assms have x: "x < 0" by simp
  have "x / pow2 (exponent x - 52) \<le> 0"
    using x pow2_pos [of "exponent x - 52"] by (simp add: divide_le_0_iff)
  then have "round_half_even (x / pow2 (exponent x - 52)) \<le> 0"
    by (rule round_half_even_nonpos)
  then have "of_int (round_half_even (x / pow2 (exponent x - 52))) * pow2 (exponent x - 52) \<le> 0"
    using pow2_pos [of "exponent x - 52"] by (simp add: mult_le_0_iff)
  with x show ?thesis
    by (simp add: round_double_def Let_def)
qed

lemma Math_max_round: "Math_max (Fin 0) (round_double x) = round_double (max 0 x)"
proof (cases "x \<le> 0")
  case True
  from round_double_nonpos [OF True] show ?thesis
    using True by (auto simp: Math_max_def max_def round_double_zero)
next
  case False
  then have "0 \<le> x" by simp
  from round_double_nonneg [OF this] show ?thesis
    using False by (auto simp: Math_max_def max_def)
qed

lemma exponent_upper:
  assumes "x \<noteq> 0"
  shows "\<bar>x\<bar> < pow2 (exponent x + 1)"
proof -
  have "0 < \<bar>x\<bar>" using assms by simp
  from floor_log2_bounds [OF this] have "\<bar>x\<bar> < pow2 (floor_log2 \<bar>x\<bar> + 1)" by simp
  also have "\<dots> \<le> pow2 (exponent x + 1)"
    by (rule pow2_mono) (simp add: exponent_def)
  finally show ?thesis .
qed

lemma round_half_even_bound:
  assumes "\<bar>q\<bar> < of_int N"
  shows "\<bar>round_half_even q\<bar> \<le> N"
proof -
  have lo: "- N \<le> \<lfloor>q\<rfloor>" using assms by (simp add: le_floor_iff abs_less_iff)
  have "\<lfloor>q\<rfloor> < N" using assms by (simp add: abs_less_iff floor_less_iff)
  then have hi: "\<lfloor>q\<rfloor> + 1 \<le> N" by simp
  have "round_half_even q = \<lfloor>q\<rfloor> \<or> round_half_even q = \<lfloor>q\<rfloor> + 1"
    by (simp add: round_half_even_def Let_def)
  with lo hi show ?thesis by linarith
qed

text \<open>A rounded value is a double: rounding it again changes nothing.\<close>

lemma round_double_idem:
  assumes "round_double x = Fin y"
  shows "round_double y = Fin y"
proof (cases "x = 0")
  case True
  with assms show ?thesis by (simp add: round_double_def)
next
  case False
  define E where "E = exponent x - 52"
  define r where "r = round_half_even (x / pow2 E)"
  have y: "y = of_int r * pow2 E" and big: "\<bar>y\<bar> < 2 ^ 1024"
    using assms False
    by (simp_all add: round_double_def Let_def E_def r_def split: if_splits)
  have E: "- 1074 \<le> E"
    by (simp add: E_def exponent_def)
  have "\<bar>x\<bar> < pow2 (E + 53)"
    using exponent_upper [OF False] by (simp add: E_def add.commute)
  also have "\<dots> = pow2 53 * pow2 E"
    by (simp add: pow2_add mult.commute)
  also have "pow2 53 = of_int (2 ^ 53)"
    by (simp add: pow2_def)
  finally have "\<bar>x\<bar> / pow2 E < of_int (2 ^ 53)"
    using pow2_pos [of E] by (simp add: divide_less_eq)
  then have "\<bar>x / pow2 E\<bar> < of_int (2 ^ 53)"
    using pow2_pos [of E] by (simp add: abs_divide del: of_int_power)
  then have r: "\<bar>r\<bar> \<le> 2 ^ 53"
    unfolding r_def by (rule round_half_even_bound)
  show ?thesis
  proof (cases "\<bar>r\<bar> < 2 ^ 53")
    case True
    from round_double_representable [OF y True E big] show ?thesis .
  next
    case False
    with r have "\<bar>r\<bar> = 2 ^ 53" by simp
    then consider "r = 2 ^ 53" | "r = - (2 ^ 53)" by linarith
    then obtain m :: int where m: "r = 2 * m" "\<bar>m\<bar> < 2 ^ 53"
    proof cases
      case 1
      then have "r = 2 * 2 ^ 52" "\<bar>(2 ^ 52 :: int)\<bar> < 2 ^ 53" by simp_all
      then show ?thesis using that by blast
    next
      case 2
      then have "r = 2 * (- (2 ^ 52))" "\<bar>- (2 ^ 52 :: int)\<bar> < 2 ^ 53" by simp_all
      then show ?thesis using that by blast
    qed
    have "pow2 (E + 1) = pow2 1 * pow2 E"
      by (simp add: pow2_add mult.commute)
    moreover have "pow2 1 = 2"
      by (simp add: pow2_def)
    ultimately have "pow2 (E + 1) = 2 * pow2 E"
      by simp
    with y m(1) have y': "y = of_int m * pow2 (E + 1)"
      by simp
    from E have "- 1074 \<le> E + 1" by simp
    from round_double_representable [OF y' m(2) this big] show ?thesis .
  qed
qed

section \<open>The metrics\<close>

lemma num_or_contribution: "num_or (Number sn v) (Fin 0) = spec_contribution sn v"
  by (cases v) (simp_all add: num_or_def spec_contribution_def)

lemma reduce_contribution:
  "foldl (\<lambda>sum x. sum + num_or (Number sn (field x k)) (Fin 0)) (Fin 0) xs
     = double_sum (map (\<lambda>x. spec_contribution sn (field x k)) xs)"
  by (simp add: double_sum_def foldl_map num_or_contribution)

text \<open>
  The sums are taken in doubles, so they are the exact sums only while no rounding
  occurs: the totals \<open>2^53\<close> and \<open>1\<close> add up to \<open>2^53\<close>, twice the largest double
  adds up to infinity, and the doubles written \<open>0.1\<close> and \<open>0.2\<close> add up to the double
  above the one written \<open>0.3\<close>.
\<close>

lemma double_sum_rounds:
  "double_sum [Fin 9007199254740992, Fin 1] = Fin 9007199254740992"
proof -
  have "round_double 9007199254740992 = Fin 9007199254740992"
    using round_double_representable [of 9007199254740992 4503599627370496 1]
    by (simp add: pow2_def)
  then show ?thesis
    using round_2_53_plus_1 by (simp add: double_sum_def plus_jsnum_def)
qed

lemma MAX_VALUE_double: "round_double MAX_VALUE = Fin MAX_VALUE"
  using round_double_representable [of MAX_VALUE "2 ^ 53 - 1" 971]
  by (simp add: MAX_VALUE_def pow2_def)

lemma round_overflow: "round_double (MAX_VALUE + MAX_VALUE) = PosInfinity"
proof -
  have x: "MAX_VALUE + MAX_VALUE = (2 ^ 53 - 1) * 2 ^ 972"
    by (simp add: MAX_VALUE_def)
  have e: "exponent ((2 ^ 53 - 1) * 2 ^ 972) = 1024"
    by (rule exponent_at) (simp_all add: pow2_def)
  have q: "(2 ^ 53 - 1) * 2 ^ 972 / pow2 972 = of_int (2 ^ 53 - 1)"
    by (simp add: pow2_def)
  have d: "(1024 :: int) - 52 = 972"
    by simp
  show ?thesis
    unfolding x round_double_def Let_def e d
    by (simp only: q round_half_even_int) (simp add: pow2_def)
qed

lemma double_sum_overflows: "double_sum [Fin MAX_VALUE, Fin MAX_VALUE] = PosInfinity"
  using round_overflow by (simp add: double_sum_def plus_jsnum_def MAX_VALUE_double)

lemma round_tenth: "round_double (1 / 10) = Fin (3602879701896397 / 2 ^ 55)"
proof -
  have e: "exponent (1 / 10 :: real) = - 4"
    by (rule exponent_at) (simp_all add: pow2_def)
  have d: "(- 4 :: int) - 52 = - 56" by simp
  have q: "(1 / 10 :: real) / pow2 (- 56) = 72057594037927936 / 10"
    by (simp add: pow2_def)
  have r: "round_half_even (72057594037927936 / 10) = 7205759403792794"
    by (simp add: round_half_even_def Let_def)
  show ?thesis
    unfolding round_double_def Let_def e d q r by (simp add: pow2_def)
qed

lemma round_fifth: "round_double (2 / 10) = Fin (3602879701896397 / 2 ^ 54)"
proof -
  have e: "exponent (2 / 10 :: real) = - 3"
    by (rule exponent_at) (simp_all add: pow2_def)
  have d: "(- 3 :: int) - 52 = - 55" by simp
  have q: "(2 / 10 :: real) / pow2 (- 55) = 72057594037927936 / 10"
    by (simp add: pow2_def)
  have r: "round_half_even (72057594037927936 / 10) = 7205759403792794"
    by (simp add: round_half_even_def Let_def)
  show ?thesis
    unfolding round_double_def Let_def e d q r by (simp add: pow2_def)
qed

lemma tenth_plus_fifth:
  "Fin (3602879701896397 / 2 ^ 55) + Fin (3602879701896397 / 2 ^ 54) = Fin (5404319552844596 / 2 ^ 54)"
proof -
  have s: "(3602879701896397 / 2 ^ 55 + 3602879701896397 / 2 ^ 54 :: real) = 10808639105689191 / 2 ^ 55"
    by simp
  have e: "exponent (10808639105689191 / 2 ^ 55 :: real) = - 2"
    by (rule exponent_at) (simp_all add: pow2_def)
  have d: "(- 2 :: int) - 52 = - 54" by simp
  have q: "(10808639105689191 / 2 ^ 55 :: real) / pow2 (- 54) = 10808639105689191 / 2"
    by (simp add: pow2_def)
  have r: "round_half_even (10808639105689191 / 2) = 5404319552844596"
    by (simp add: round_half_even_def Let_def)
  have "round_double (10808639105689191 / 2 ^ 55) = Fin (5404319552844596 / 2 ^ 54)"
    unfolding round_double_def Let_def e d q r by (simp add: pow2_def)
  then show ?thesis
    by (simp only: plus_jsnum_def js_add.simps s)
qed

lemma three_tenths: "round_double (3 / 10) = Fin (5404319552844595 / 2 ^ 54)"
proof -
  have e: "exponent (3 / 10 :: real) = - 2"
    by (rule exponent_at) (simp_all add: pow2_def)
  have d: "(- 2 :: int) - 52 = - 54" by simp
  have q: "(3 / 10 :: real) / pow2 (- 54) = 54043195528445952 / 10"
    by (simp add: pow2_def)
  have r: "round_half_even (54043195528445952 / 10) = 5404319552844595"
    by (simp add: round_half_even_def Let_def)
  show ?thesis
    unfolding round_double_def Let_def e d q r by (simp add: pow2_def)
qed

lemma double_sum_cents:
  "double_sum [Fin (3602879701896397 / 2 ^ 55), Fin (3602879701896397 / 2 ^ 54)]
     = Fin (5404319552844596 / 2 ^ 54)"
proof -
  have "round_double (3602879701896397 / 2 ^ 55) = Fin (3602879701896397 / 2 ^ 55)"
    using round_double_representable [of "3602879701896397 / 2 ^ 55" 3602879701896397 "- 55"]
    by (simp add: pow2_def)
  then have "Fin 0 + Fin (3602879701896397 / 2 ^ 55) = Fin (3602879701896397 / 2 ^ 55)"
    by (simp add: plus_jsnum_def)
  then show ?thesis
    using tenth_plus_fifth by (simp only: double_sum_def foldl.simps)
qed

lemma totalVentas_double_sum:
  "totalVentas (stats sn os es) = double_sum (map (\<lambda>od. spec_contribution sn (field od ''total'')) os)"
  by (simp add: stats_def Let_def reduce_contribution)

lemma totalVentas_rounds:
  "totalVentas (stats sn [[''total'' \<mapsto> JNum (Fin 9007199254740992)], [''total'' \<mapsto> JNum (Fin 1)]] es)
     = Fin 9007199254740992"
  "totalVentas (stats sn [[''total'' \<mapsto> JNum (Fin MAX_VALUE)], [''total'' \<mapsto> JNum (Fin MAX_VALUE)]] es)
     = PosInfinity"
  "totalVentas (stats sn [[''total'' \<mapsto> JNum (Fin (3602879701896397 / 2 ^ 55))],
                          [''total'' \<mapsto> JNum (Fin (3602879701896397 / 2 ^ 54))]] es)
     = Fin (5404319552844596 / 2 ^ 54)"
  using double_sum_cents
  by (simp_all add: totalVentas_double_sum spec_contribution_def field_def
      double_sum_rounds double_sum_overflows)

text \<open>
  Claim C1. For every orders snapshot and expenses snapshot, \<open>totalVentas\<close> is the sum
  over the orders of the numeric value of \<open>total\<close>, \<open>totalRecaudado\<close> the sum over the
  orders of the numeric value of \<open>adelanto\<close>, and \<open>totalGastos\<close> the sum over the
  expenses of the numeric value of \<open>monto\<close>, where a field that is missing or does not
  coerce to a number contributes exactly 0; on empty collections the three sums are 0.

  The sum is the one the language computes, in the order of the snapshot. The last
  conjunct says when it is the sum of the integers: whenever the values are integers
  whose absolute values add up to less than \<open>2^53\<close>.
\<close>

theorem metrics_sums:
  "totalVentas (stats sn os es) = double_sum (map (\<lambda>od. spec_contribution sn (field od ''total'')) os) \<and>
   totalRecaudado (stats sn os es) = double_sum (map (\<lambda>od. spec_contribution sn (field od ''adelanto'')) os) \<and>
   totalGastos (stats sn os es) = double_sum (map (\<lambda>e. spec_contribution sn (field e ''monto'')) es) \<and>
   totalVentas (stats sn [] []) = Fin 0 \<and>
   totalRecaudado (stats sn [] []) = Fin 0 \<and>
   totalGastos (stats sn [] []) = Fin 0 \<and>
   ((\<Sum>n\<leftarrow>ns. \<bar>n\<bar>) < 2 ^ 53 \<longrightarrow>
      double_sum (map (\<lambda>n. Fin (of_int n)) ns) = Fin (of_int (sum_list ns)))"
  by (simp add: stats_def Let_def reduce_contribution double_sum_int)

theorem metrics_sums_witness:
  "(\<Sum>n\<leftarrow>[1000, 500 :: int]. \<bar>n\<bar>) < 2 ^ 53 \<and>
   totalVentas (stats (\<lambda>s. NaN) ex_orders ex_expenses) = Fin 1500 \<and>
   totalRecaudado (stats (\<lambda>s. NaN) ex_orders ex_expenses) = Fin 700 \<and>
   totalGastos (stats (\<lambda>s. NaN) ex_orders ex_expenses) = Fin 300"
proof -
  have small: "(\<Sum>n\<leftarrow>[1000, 500 :: int]. \<bar>n\<bar>) < 2 ^ 53"
    "(\<Sum>n\<leftarrow>[200, 500 :: int]. \<bar>n\<bar>) < 2 ^ 53"
    "(\<Sum>n\<leftarrow>[300 :: int]. \<bar>n\<bar>) < 2 ^ 53"
    by simp_all
  have v: "map (\<lambda>od. spec_contribution (\<lambda>s. NaN) (field od ''total'')) ex_orders
             = map (\<lambda>n. Fin (of_int n)) [1000, 500]"
    and r: "map (\<lambda>od. spec_contribution (\<lambda>s. NaN) (field od ''adelanto'')) ex_orders
             = map (\<lambda>n. Fin (of_int n)) [200, 500]"
    and g: "map (\<lambda>e. spec_contribution (\<lambda>s. NaN) (field e ''monto'')) ex_expenses
             = map (\<lambda>n. Fin (of_int n)) [300]"
    by (simp_all add: ex_orders_def ex_expenses_def spec_contribution_def field_def)
  from small(1) metrics_sums [of "\<lambda>s. NaN" ex_orders ex_expenses "[1000, 500]"]
  have "totalVentas (stats (\<lambda>s. NaN) ex_orders ex_expenses) = Fin 1500"
    by (simp only: v) simp
  moreover from small(2) metrics_sums [of "\<lambda>s. NaN" ex_orders ex_expenses "[200, 500]"]
  have "totalRecaudado (stats (\<lambda>s. NaN) ex_orders ex_expenses) = Fin 700"
    by (simp only: r) simp
  moreover from small(3) metrics_sums [of "\<lambda>s. NaN" ex_orders ex_expenses "[300]"]
  have "totalGastos (stats (\<lambda>s. NaN) ex_orders ex_expenses) = Fin 300"
    by (simp only: g) simp
  ultimately show ?thesis
    using small(1) by simp
qed

lemma strict_eq_JStr: "strict_eq v (JStr s) = (v = JStr s)"
  by (cases v) simp_all

lemma filter_update_count:
  "i < length xs \<Longrightarrow> \<not> P (xs ! i) \<Longrightarrow> P y \<Longrightarrow>
   length (filter P (xs[i := y])) = Suc (length (filter P xs))"
proof (induction xs arbitrary: i)
  case Nil
  then show ?case by simp
next
  case (Cons x xs)
  then show ?case by (cases i) simp_all
qed

lemma field_upd_same: "field (obj(k \<mapsto> v)) k = v"
  by (simp add: field_def)

lemma pendientes_eq:
  "pedidosPendientes (stats sn os es)
     = length (filter (\<lambda>od. field od ''estado'' \<noteq> JStr ''Entregado'') os)"
  by (simp add: stats_def Let_def strict_eq_JStr)

text \<open>
  Claim C2. For every orders snapshot, \<open>pedidosPendientes\<close> is the number of orders
  whose \<open>estado\<close> is not "Entregado"; so replacing the \<open>estado\<close> of one order that is
  "Entregado" by any other value, the other orders unchanged, raises the count by
  exactly 1.
\<close>

theorem active_count:
  "pedidosPendientes (stats sn os es)
     = card {i. i < length os \<and> field (os ! i) ''estado'' \<noteq> JStr ''Entregado''} \<and>
   (i < length os \<and> field (os ! i) ''estado'' = JStr ''Entregado'' \<and> v \<noteq> JStr ''Entregado'' \<longrightarrow>
      pedidosPendientes (stats sn (os[i := (os ! i)(''estado'' \<mapsto> v)]) es)
        = pedidosPendientes (stats sn os es) + 1)"
proof (intro conjI impI)
  show "pedidosPendientes (stats sn os es)
     = card {i. i < length os \<and> field (os ! i) ''estado'' \<noteq> JStr ''Entregado''}"
    by (simp add: pendientes_eq length_filter_conv_card)
next
  assume h: "i < length os \<and> field (os ! i) ''estado'' = JStr ''Entregado'' \<and> v \<noteq> JStr ''Entregado''"
  let ?P = "\<lambda>od. field od ''estado'' \<noteq> JStr ''Entregado''"
  have "length (filter ?P (os[i := (os ! i)(''estado'' \<mapsto> v)])) = Suc (length (filter ?P os))"
    using h by (intro filter_update_count) (simp_all add: field_upd_same)
  then show "pedidosPendientes (stats sn (os[i := (os ! i)(''estado'' \<mapsto> v)]) es)
        = pedidosPendientes (stats sn os es) + 1"
    by (simp add: pendientes_eq)
qed

theorem active_count_witness:
  "(1::nat) < length ex_orders \<and> field (ex_orders ! 1) ''estado'' = JStr ''Entregado'' \<and>
   pedidosPendientes (stats (\<lambda>s. NaN) ex_orders ex_expenses) = 1 \<and>
   pedidosPendientes
     (stats (\<lambda>s. NaN) (ex_orders[1 := (ex_orders ! 1)(''estado'' \<mapsto> JStr ''Listo'')]) ex_expenses) = 2"
proof -
  have h: "(1::nat) < length ex_orders \<and> field (ex_orders ! 1) ''estado'' = JStr ''Entregado'' \<and>
           JStr ''Listo'' \<noteq> JStr ''Entregado''"
    by (simp add: ex_orders_def field_def)
  have base: "pedidosPendientes (stats (\<lambda>s. NaN) ex_orders ex_expenses) = 1"
    by (simp add: pendientes_eq ex_orders_def field_def)
  from h active_count [of "\<lambda>s. NaN" ex_orders ex_expenses 1 "JStr ''Listo''"]
  have "pedidosPendientes
     (stats (\<lambda>s. NaN) (ex_orders[1 := (ex_orders ! 1)(''estado'' \<mapsto> JStr ''Listo'')]) ex_expenses)
       = pedidosPendientes (stats (\<lambda>s. NaN) ex_orders ex_expenses) + 1"
    by blast
  with h base show ?thesis by simp
qed

text \<open>
  Claim C3. For every orders snapshot and expenses snapshot, \<open>balance\<close> is
  \<open>totalRecaudado\<close> minus \<open>totalGastos\<close>, both computed from the same inputs; on two
  empty collections it is 0.
\<close>

theorem balance_identity:
  "balance (stats sn os es) = totalRecaudado (stats sn os es) - totalGastos (stats sn os es) \<and>
   balance (stats sn [] []) = Fin 0"
  by (simp add: stats_def Let_def minus_jsnum_def round_double_zero)

theorem balance_identity_witness:
  "balance (stats (\<lambda>s. NaN) ex_orders ex_expenses) = Fin 400"
proof -
  have "totalRecaudado (stats (\<lambda>s. NaN) ex_orders ex_expenses) = Fin 700"
    and "totalGastos (stats (\<lambda>s. NaN) ex_orders ex_expenses) = Fin 300"
    by (simp_all add: stats_def Let_def ex_orders_def ex_expenses_def field_def num_or_def plus_jsnum_def
        round_double_simps)
  with balance_identity [of "\<lambda>s. NaN" ex_orders ex_expenses] show ?thesis
    by (simp add: minus_jsnum_def round_double_simps)
qed

section \<open>The synchronizers\<close>

lemma ex_session_eval:
  "listeners ex_session = [(0, SyncOrders), (1, SyncExpenses), (2, SyncInventory)]"
  "next_sub ex_session = 3"
  "cleanup ex_session = Some (0, 1, 2)"
  "mounted ex_session"
  "db ex_session"
  "user ex_session = Some ''u1''"
  "orders ex_session = []"
  "isModalOpen ex_session = None"
  "awaiting ex_session = 0"
  "sent ex_session = []"
  "console ex_session = []"
  "valid_doc ex_session = ex_valid_doc"
  by (simp_all add: ex_session_def init_def setUser_def run_cleanup_def run_effect_def
      onSnapshot_def Let_def)

text \<open>
  A notification replaces the snapshot of the synchronizer it is delivered to by the
  records of the delivered documents, in their order, whatever the snapshot was.
\<close>

lemma deliver_replaces:
  "map_of (listeners st) k = Some SyncOrders \<Longrightarrow> orders (deliver k docs st) = map to_record docs"
  "map_of (listeners st) k = Some SyncExpenses \<Longrightarrow> expenses (deliver k docs st) = map to_record docs"
  "map_of (listeners st) k = Some SyncInventory \<Longrightarrow> inventory (deliver k docs st) = map to_record docs"
  by (simp_all add: deliver_def)

text \<open>
  A record carries every field of the document's data. Its \<open>id\<close> is the one the store
  assigned when the data has no field of that name; otherwise the data's field wins,
  because the spread is written after \<open>id\<close>.
\<close>

lemma to_record_data: "doc_data d k = Some v \<Longrightarrow> to_record d k = Some v"
  by (simp add: to_record_def map_add_def)

lemma to_record_id: "doc_data d ''id'' = None \<Longrightarrow> field (to_record d) ''id'' = JStr (doc_id d)"
  by (simp add: to_record_def field_def map_add_def)

lemma to_record_shadowed: "doc_data d ''id'' = Some v \<Longrightarrow> field (to_record d) ''id'' = v"
  by (simp add: to_record_def field_def map_add_def)

text \<open>
  Claim C4. After a notification delivering the documents S, the snapshot of the
  synchronizer is exactly the records of S, each tagged with the id the store assigned,
  in the delivered order, independent of the snapshot held before.

  The replacement is wholesale (\<open>deliver_replaces\<close>), but the tag is not always the
  store's: delivered to the orders listener of a signed-in session, the document the
  store knows as \<open>A1\<close>, whose data has \<open>id = X9\<close>, becomes a record whose \<open>id\<close> is
  \<open>X9\<close>. The component addresses the store by that field
  (\<^verbatim>\<open>deleteItem('orders', o.id)\<close>, \<^verbatim>\<open>updateStatus(o.id, ...)\<close>).
\<close>

theorem snapshot_id_shadowed:
  "map (\<lambda>r. field r ''id'')
     (orders (step (\<lambda>s. NaN) (SnapshotDelivered 0 [ex_shadow_doc]) ex_session)) = [JStr ''X9''] \<and>
   doc_id ex_shadow_doc = ''A1''"
  by (simp add: deliver_def ex_session_eval to_record_def field_def ex_shadow_doc_def)

section \<open>The views\<close>

text \<open>
  Claim C5. For every orders snapshot, the "Pedidos Recientes" view is exactly the first
  five entries of the snapshot in the order the snapshot was delivered; nothing sorts the
  orders, by creation time or otherwise, before the list is cut.
\<close>

theorem recent_is_prefix:
  "pedidos_recientes os = take 5 os \<and>
   length (pedidos_recientes os) = min 5 (length os) \<and>
   (\<forall>j < length (pedidos_recientes os). pedidos_recientes os ! j = os ! j) \<and>
   (map_of (listeners st) k = Some SyncOrders \<longrightarrow>
      pedidos_recientes (orders (step sn (SnapshotDelivered k docs) st)) = map to_record (take 5 docs))"
  by (simp add: pedidos_recientes_def deliver_replaces take_map)

text \<open>Six orders delivered out of creation order: the view shows the first five, as delivered.\<close>

theorem recent_is_prefix_witness:
  "map_of (listeners ex_session) 0 = Some SyncOrders \<and>
   map (\<lambda>r. field r ''createdAt'')
     (pedidos_recientes (orders (step (\<lambda>s. NaN)
        (SnapshotDelivered 0 (map ex_doc [''3'', ''1'', ''4'', ''2'', ''5'', ''9''])) ex_session)))
     = map JStr [''3'', ''1'', ''4'', ''2'', ''5'']"
proof -
  have h: "map_of (listeners ex_session) 0 = Some SyncOrders"
    by (simp add: ex_session_eval)
  from h recent_is_prefix [of "[]" ex_session 0 "\<lambda>s. NaN" "map ex_doc [''3'', ''1'', ''4'', ''2'', ''5'', ''9'']"]
  have "pedidos_recientes (orders (step (\<lambda>s. NaN)
        (SnapshotDelivered 0 (map ex_doc [''3'', ''1'', ''4'', ''2'', ''5'', ''9''])) ex_session))
        = map to_record (take 5 (map ex_doc [''3'', ''1'', ''4'', ''2'', ''5'', ''9'']))"
    by blast
  with h show ?thesis
    by (simp add: to_record_def ex_doc_def field_def)
qed

lemma str_lt_irrefl: "\<not> str_lt s s"
  by (induction s) simp_all

lemma num_le_refl: "x \<noteq> NaN \<Longrightarrow> num_le x x"
  by (cases x) simp_all

lemma strict_eq_js_le:
  assumes "v \<noteq> JUndefined" and "strict_eq v w"
  shows "js_le sn v w"
proof (cases v)
  case (JNum x)
  with assms show ?thesis by (cases w) (simp_all add: num_le_refl)
next
  case (JStr s)
  with assms show ?thesis by (cases w) (simp_all add: str_lt_irrefl)
qed (use assms in \<open>cases w; simp\<close>)+

lemma num_le_NaN_right: "\<not> num_le x NaN"
  by (cases x) simp_all

lemma undefined_not_js_le:
  "v = JUndefined \<or> w = JUndefined \<Longrightarrow> \<not> js_le sn v w"
  by (cases v; cases w) (simp_all add: num_le_NaN_right)

text \<open>
  Claim C10. For every inventory item, the low-stock classification is the non-strict
  comparison of \<open>stock\<close> with \<open>minimo\<close>: an item whose stock equals its threshold is
  low stock (it is in the "Stock Bajo" list and its badge is "Bajo Stock"), not normal.

  The first four conjuncts fix the list and the badge of every item by the \<^verbatim>\<open><=\<close>
  of the language, and say that the two agree. The others say what that comparison is: the order of the numbers
  when both fields are numbers, true when the item has a stock equal (\<^verbatim>\<open>===\<close>) to its
  threshold, whatever the type, and false when one of the two fields is missing.
\<close>

theorem low_stock_non_strict:
  "stock_bajo sn items = filter (\<lambda>i. js_le sn (field i ''stock'') (field i ''minimo'')) items \<and>
   (i \<in> set (stock_bajo sn items) \<longleftrightarrow> i \<in> set items \<and> badge_status sn i = ''Bajo Stock'') \<and>
   (badge_status sn i = ''Bajo Stock'' \<longleftrightarrow> js_le sn (field i ''stock'') (field i ''minimo'')) \<and>
   (badge_status sn i = ''Normal'' \<longleftrightarrow> \<not> js_le sn (field i ''stock'') (field i ''minimo'')) \<and>
   (field i ''stock'' = JNum x \<and> field i ''minimo'' = JNum y \<longrightarrow>
      js_le sn (field i ''stock'') (field i ''minimo'') = num_le x y) \<and>
   (field i ''stock'' = JNum (Fin a) \<and> field i ''minimo'' = JNum (Fin b) \<longrightarrow>
      js_le sn (field i ''stock'') (field i ''minimo'') = (a \<le> b)) \<and>
   (field i ''stock'' \<noteq> JUndefined \<and> strict_eq (field i ''stock'') (field i ''minimo'') \<longrightarrow>
      js_le sn (field i ''stock'') (field i ''minimo'')) \<and>
   (field i ''stock'' = JUndefined \<or> field i ''minimo'' = JUndefined \<longrightarrow>
      \<not> js_le sn (field i ''stock'') (field i ''minimo''))"
proof (intro conjI impI)
  show "stock_bajo sn items = filter (\<lambda>i. js_le sn (field i ''stock'') (field i ''minimo'')) items"
    by (simp add: stock_bajo_def)
  show "i \<in> set (stock_bajo sn items) \<longleftrightarrow> i \<in> set items \<and> badge_status sn i = ''Bajo Stock''"
    by (auto simp: stock_bajo_def badge_status_def)
  show "badge_status sn i = ''Bajo Stock'' \<longleftrightarrow> js_le sn (field i ''stock'') (field i ''minimo'')"
    by (simp add: badge_status_def)
  show "badge_status sn i = ''Normal'' \<longleftrightarrow> \<not> js_le sn (field i ''stock'') (field i ''minimo'')"
    by (simp add: badge_status_def)
  show "js_le sn (field i ''stock'') (field i ''minimo'') = num_le x y"
    if "field i ''stock'' = JNum x \<and> field i ''minimo'' = JNum y"
    using that by simp
  show "js_le sn (field i ''stock'') (field i ''minimo'') = (a \<le> b)"
    if "field i ''stock'' = JNum (Fin a) \<and> field i ''minimo'' = JNum (Fin b)"
    using that by simp
  show "js_le sn (field i ''stock'') (field i ''minimo'')"
    if "field i ''stock'' \<noteq> JUndefined \<and> strict_eq (field i ''stock'') (field i ''minimo'')"
    using that by (simp add: strict_eq_js_le)
  show "\<not> js_le sn (field i ''stock'') (field i ''minimo'')"
    if "field i ''stock'' = JUndefined \<or> field i ''minimo'' = JUndefined"
    using that by (rule undefined_not_js_le)
qed

text \<open>
  An item at its threshold is low, one above it is not; nor is an item without
  \<open>minimo\<close>, an infinite stock, or the string \<open>9\<close> against the string \<open>5\<close>.
\<close>

theorem low_stock_non_strict_witness:
  "field (ex_item 5 5) ''stock'' = JNum (Fin 5) \<and> field (ex_item 5 5) ''minimo'' = JNum (Fin 5) \<and>
   field (ex_item 5 5) ''stock'' \<noteq> JUndefined \<and>
   strict_eq (field (ex_item 5 5) ''stock'') (field (ex_item 5 5) ''minimo'') \<and>
   field [''stock'' \<mapsto> JNum (Fin 9)] ''minimo'' = JUndefined \<and>
   badge_status (\<lambda>s. NaN) (ex_item 5 5) = ''Bajo Stock'' \<and>
   stock_bajo (\<lambda>s. NaN) [ex_item 10 5, ex_item 5 5] = [ex_item 5 5] \<and>
   badge_status (\<lambda>s. NaN) (ex_item 10 5) = ''Normal'' \<and>
   badge_status (\<lambda>s. NaN) [''stock'' \<mapsto> JNum (Fin 9)] = ''Normal'' \<and>
   badge_status (\<lambda>s. NaN) [''stock'' \<mapsto> JNum PosInfinity, ''minimo'' \<mapsto> JNum (Fin 5)] = ''Normal'' \<and>
   badge_status (\<lambda>s. NaN) [''stock'' \<mapsto> JStr ''9'', ''minimo'' \<mapsto> JStr ''5''] = ''Normal''"
proof -
  have h: "field (ex_item 5 5) ''stock'' = JNum (Fin 5) \<and> field (ex_item 5 5) ''minimo'' = JNum (Fin 5)"
    and g: "field (ex_item 5 5) ''stock'' \<noteq> JUndefined \<and>
            strict_eq (field (ex_item 5 5) ''stock'') (field (ex_item 5 5) ''minimo'')"
    and h': "field (ex_item 10 5) ''stock'' = JNum (Fin 10) \<and> field (ex_item 10 5) ''minimo'' = JNum (Fin 5)"
    and m: "field [''stock'' \<mapsto> JNum (Fin 9)] ''minimo'' = JUndefined"
    and inf: "field [''stock'' \<mapsto> JNum PosInfinity, ''minimo'' \<mapsto> JNum (Fin 5)] ''stock'' = JNum PosInfinity \<and>
              field [''stock'' \<mapsto> JNum PosInfinity, ''minimo'' \<mapsto> JNum (Fin 5)] ''minimo'' = JNum (Fin 5)"
    by (simp_all add: ex_item_def field_def)
  from g low_stock_non_strict [of "\<lambda>s. NaN" "[ex_item 10 5, ex_item 5 5]" "ex_item 5 5"]
  have low: "js_le (\<lambda>s. NaN) (field (ex_item 5 5) ''stock'') (field (ex_item 5 5) ''minimo'')"
    "badge_status (\<lambda>s. NaN) (ex_item 5 5) = ''Bajo Stock''"
    by blast+
  from h' low_stock_non_strict [of "\<lambda>s. NaN" "[ex_item 10 5, ex_item 5 5]" "ex_item 10 5" _ _ 10 5]
  have high: "\<not> js_le (\<lambda>s. NaN) (field (ex_item 10 5) ''stock'') (field (ex_item 10 5) ''minimo'')"
    "badge_status (\<lambda>s. NaN) (ex_item 10 5) = ''Normal''"
    by simp_all
  from low(1) high(1) low_stock_non_strict [of "\<lambda>s. NaN" "[ex_item 10 5, ex_item 5 5]"]
  have list: "stock_bajo (\<lambda>s. NaN) [ex_item 10 5, ex_item 5 5] = [ex_item 5 5]"
    by simp
  from m low_stock_non_strict [of "\<lambda>s. NaN" "[]" "[''stock'' \<mapsto> JNum (Fin 9)]"]
  have missing: "badge_status (\<lambda>s. NaN) [''stock'' \<mapsto> JNum (Fin 9)] = ''Normal''"
    by blast
  from inf low_stock_non_strict [of "\<lambda>s. NaN" "[]"
      "[''stock'' \<mapsto> JNum PosInfinity, ''minimo'' \<mapsto> JNum (Fin 5)]" PosInfinity "Fin 5"]
  have infinite: "badge_status (\<lambda>s. NaN) [''stock'' \<mapsto> JNum PosInfinity, ''minimo'' \<mapsto> JNum (Fin 5)] = ''Normal''"
    by simp
  from low_stock_non_strict [of "\<lambda>s. NaN" "[]" "[''stock'' \<mapsto> JStr ''9'', ''minimo'' \<mapsto> JStr ''5'']"]
  have strings: "badge_status (\<lambda>s. NaN) [''stock'' \<mapsto> JStr ''9'', ''minimo'' \<mapsto> JStr ''5''] = ''Normal''"
    by (simp add: field_def)
  from h g m low(2) list high(2) missing infinite strings show ?thesis
    by simp
qed


section \<open>The write path\<close>

text \<open>When \<open>doc\<close> throws, and what the handlers of the write path do then.\<close>

lemma doc_throws:
  "doc st coll ident = None \<longleftrightarrow> \<not> db st \<or> (\<forall>k. ident = JStr k \<longrightarrow> \<not> valid_doc st coll k)"
  by (cases ident) (simp_all add: doc_def)

lemma doc_returns:
  "doc st coll ident = Some r \<longleftrightarrow>
     db st \<and> (\<exists>k. ident = JStr k \<and> valid_doc st coll k) \<and> r = (coll, ident)"
  by (cases ident) (auto simp: doc_def)

lemma updateStatus_throws: "doc st ''orders'' ident = None \<Longrightarrow> updateStatus ident w st = st"
  by (simp add: updateStatus_def)

lemma deleteItem_throws: "doc st type ident = None \<Longrightarrow> deleteItem type ident st = st"
  by (simp add: deleteItem_def)

lemma increment_throws: "doc st ''inventory'' (field i ''id'') = None \<Longrightarrow> increment sn i st = st"
  by (simp add: increment_def)

lemma js_add_not_NaN: "a \<noteq> NaN \<Longrightarrow> js_add a (Fin b) \<noteq> NaN"
  by (cases a) (simp_all add: round_double_not_NaN)

lemma Math_max_nonneg: "z \<noteq> NaN \<Longrightarrow> num_le (Fin 0) (Math_max (Fin 0) z)"
  by (cases z) (simp_all add: Math_max_def)

lemma decremented_int:
  assumes "Number sn (field i ''stock'') = Fin (of_int n)" and "\<bar>n - 1\<bar> < 2 ^ 53"
  shows "decremented sn i = Fin (of_int (max 0 (n - 1)))"
proof -
  have "round_double (of_int n + - 1) = Fin (of_int (n - 1))"
    using round_double_int [OF assms(2)] by simp
  then show ?thesis
    using assms(1) by (simp add: decremented_def minus_jsnum_def Math_max_def max_def)
qed

text \<open>
  The subtraction is one of doubles: from the stock \<open>2^53 + 2\<close> the button sends
  \<open>2^53\<close>, since \<open>2^53 + 1\<close> is not a double, and from the largest double it sends the
  largest double.
\<close>

lemma decremented_rounds:
  "decremented (\<lambda>s. NaN) [''stock'' \<mapsto> JNum (Fin 9007199254740994)] = Fin 9007199254740992"
proof -
  have "round_double (9007199254740994 + - 1) = Fin 9007199254740992"
    using round_2_53_plus_1 by simp
  then show ?thesis
    by (simp add: decremented_def field_def minus_jsnum_def Math_max_def)
qed

lemma round_MAX_VALUE_minus_1: "round_double (MAX_VALUE - 1) = Fin MAX_VALUE"
proof -
  have x: "MAX_VALUE - 1 = (2 ^ 53 - 1) * 2 ^ 971 - 1"
    by (simp add: MAX_VALUE_def)
  have e: "exponent ((2 ^ 53 - 1) * 2 ^ 971 - 1) = 1023"
    by (rule exponent_at) (simp_all add: pow2_def)
  have d: "(1023 :: int) - 52 = 971"
    by simp
  have fl: "\<lfloor>((2 ^ 53 - 1) * 2 ^ 971 - 1) / pow2 971 :: real\<rfloor> = 2 ^ 53 - 2"
    by (simp add: pow2_def floor_eq_iff field_simps)
  have r: "round_half_even (((2 ^ 53 - 1) * 2 ^ 971 - 1) / pow2 971) = 2 ^ 53 - 1"
    unfolding round_half_even_def Let_def fl by (simp add: pow2_def field_simps)
  show ?thesis
    unfolding x round_double_def Let_def e d r by (simp add: pow2_def MAX_VALUE_def)
qed

lemma decremented_MAX_VALUE:
  "decremented (\<lambda>s. NaN) [''stock'' \<mapsto> JNum (Fin MAX_VALUE)] = Fin MAX_VALUE"
proof -
  have "round_double (MAX_VALUE + - 1) = Fin MAX_VALUE"
    using round_MAX_VALUE_minus_1 by simp
  moreover have "0 \<le> MAX_VALUE"
    by (simp add: MAX_VALUE_def)
  ultimately show ?thesis
    by (simp add: decremented_def field_def minus_jsnum_def Math_max_def)
qed

text \<open>The value sent, by the number the stock stands for.\<close>

lemma decremented_finite:
  "Number sn (field i ''stock'') = Fin s \<Longrightarrow> decremented sn i = round_double (max 0 (s - 1))"
  using Math_max_round [of "s - 1"] by (simp add: decremented_def minus_jsnum_def)

lemma decremented_not_finite:
  "Number sn (field i ''stock'') = PosInfinity \<Longrightarrow> decremented sn i = PosInfinity"
  "Number sn (field i ''stock'') = NegInfinity \<Longrightarrow> decremented sn i = Fin 0"
  "Number sn (field i ''stock'') = NaN \<Longrightarrow> decremented sn i = NaN"
  by (simp_all add: decremented_def minus_jsnum_def Math_max_def)

text \<open>
  Claim C6. For every inventory item with current stock \<open>s\<close>, the decrement button sends
  the new stock \<open>max(0, s - 1)\<close>, computed in the component before the call on the
  store; for every integer \<open>s \<ge> 0\<close> the value sent is not negative, and for \<open>s = 0\<close> it
  is 0.

  The first four conjuncts give the value for every item, by the number its stock
  stands for: for a finite \<open>s\<close> it is \<open>max(0, s - 1)\<close> as a double, that is, rounded to
  the nearest one. The fifth says that it is the integer \<open>max(0, s - 1)\<close> for every
  integer stock up to \<open>2^53\<close>; the sixth and seventh are the floor, for every stock
  that is a number. The last two say what the button does: it sends one update of
  \<open>stock\<close> to that value, and changes nothing else, when \<open>doc\<close> accepts the id of the
  item; it does nothing at all when \<open>doc\<close> throws.
\<close>

theorem decrement_floor:
  "(Number sn (field i ''stock'') = Fin s \<longrightarrow> decremented sn i = round_double (max 0 (s - 1))) \<and>
   (Number sn (field i ''stock'') = PosInfinity \<longrightarrow> decremented sn i = PosInfinity) \<and>
   (Number sn (field i ''stock'') = NegInfinity \<longrightarrow> decremented sn i = Fin 0) \<and>
   (Number sn (field i ''stock'') = NaN \<longrightarrow> decremented sn i = NaN) \<and>
   (Number sn (field i ''stock'') = Fin (of_int n) \<and> \<bar>n - 1\<bar> < 2 ^ 53 \<longrightarrow>
      decremented sn i = Fin (of_int (max 0 (n - 1)))) \<and>
   (Number sn (field i ''stock'') \<noteq> NaN \<longrightarrow> num_le (Fin 0) (decremented sn i)) \<and>
   (Number sn (field i ''stock'') = Fin 0 \<longrightarrow> decremented sn i = Fin 0) \<and>
   (db st \<and> field i ''id'' = JStr k \<and> valid_doc st ''inventory'' k \<longrightarrow>
      decrement sn i st
        = st\<lparr> sent := sent st @ [UpdateDoc ''inventory'' (JStr k) [''stock'' \<mapsto> JNum (decremented sn i)]] \<rparr>) \<and>
   (\<not> (db st \<and> (\<exists>k. field i ''id'' = JStr k \<and> valid_doc st ''inventory'' k)) \<longrightarrow>
      decrement sn i st = st)"
proof (intro conjI impI)
  show "decremented sn i = round_double (max 0 (s - 1))" if "Number sn (field i ''stock'') = Fin s"
    using that by (rule decremented_finite)
  show "decremented sn i = PosInfinity" if "Number sn (field i ''stock'') = PosInfinity"
    using that by (rule decremented_not_finite)
  show "decremented sn i = Fin 0" if "Number sn (field i ''stock'') = NegInfinity"
    using that by (rule decremented_not_finite)
  show "decremented sn i = NaN" if "Number sn (field i ''stock'') = NaN"
    using that by (rule decremented_not_finite)
  show "decremented sn i = Fin (of_int (max 0 (n - 1)))"
    if "Number sn (field i ''stock'') = Fin (of_int n) \<and> \<bar>n - 1\<bar> < 2 ^ 53"
    using that by (simp add: decremented_int)
  show "num_le (Fin 0) (decremented sn i)" if "Number sn (field i ''stock'') \<noteq> NaN"
    using that by (simp add: decremented_def minus_jsnum_def Math_max_nonneg js_add_not_NaN)
  show "decremented sn i = Fin 0" if "Number sn (field i ''stock'') = Fin 0"
    using that decremented_int [of sn i 0] by simp
  show "decrement sn i st
        = st\<lparr> sent := sent st @ [UpdateDoc ''inventory'' (JStr k) [''stock'' \<mapsto> JNum (decremented sn i)]] \<rparr>"
    if "db st \<and> field i ''id'' = JStr k \<and> valid_doc st ''inventory'' k"
    using that by (simp add: decrement_def doc_def updateDoc_def)
  show "decrement sn i st = st"
    if "\<not> (db st \<and> (\<exists>k. field i ''id'' = JStr k \<and> valid_doc st ''inventory'' k))"
    using that by (auto simp: decrement_def doc_def split: jsval.splits)
qed

text \<open>
  At stock 0 the button sends 0, at stock 3 it sends 2, at stock 2.5 it sends 1.5; with
  an infinite stock it sends infinity and with no stock NaN. For an item whose \<open>id\<close>
  field is the string \<open>a/b\<close>, or is missing, it sends nothing.
\<close>

theorem decrement_floor_witness:
  "Number (\<lambda>s. NaN) (field (ex_item 0 5) ''stock'') = Fin 0 \<and>
   db ex_session \<and> field (ex_item 0 5) ''id'' = JStr ''i1'' \<and> valid_doc ex_session ''inventory'' ''i1'' \<and>
   decremented (\<lambda>s. NaN) (ex_item 0 5) = Fin 0 \<and>
   num_le (Fin 0) (decremented (\<lambda>s. NaN) (ex_item 3 5)) \<and>
   sent (decrement (\<lambda>s. NaN) (ex_item 0 5) ex_session)
     = [UpdateDoc ''inventory'' (JStr ''i1'') [''stock'' \<mapsto> JNum (Fin 0)]] \<and>
   decremented (\<lambda>s. NaN) (ex_item 3 5) = Fin 2 \<and>
   decremented (\<lambda>s. NaN) (ex_item (5 / 2) 5) = Fin (3 / 2) \<and>
   decremented (\<lambda>s. NaN) [''stock'' \<mapsto> JNum PosInfinity] = PosInfinity \<and>
   decremented (\<lambda>s. NaN) [''item'' \<mapsto> JStr ''papel''] = NaN \<and>
   decrement (\<lambda>s. NaN) ((ex_item 3 5)(''id'' \<mapsto> JStr ''a/b'')) ex_session = ex_session \<and>
   decrement (\<lambda>s. NaN) [''stock'' \<mapsto> JNum (Fin 3)] ex_session = ex_session"
proof -
  have h: "Number (\<lambda>s. NaN) (field (ex_item 0 5) ''stock'') = Fin 0"
    and h3: "Number (\<lambda>s. NaN) (field (ex_item 3 5) ''stock'') = Fin (of_int 3) \<and> \<bar>(3::int) - 1\<bar> < 2 ^ 53"
    and hh: "Number (\<lambda>s. NaN) (field (ex_item (5 / 2) 5) ''stock'') = Fin (5 / 2)"
    and hi: "Number (\<lambda>s. NaN) (field [''stock'' \<mapsto> JNum PosInfinity] ''stock'') = PosInfinity"
    and hn: "Number (\<lambda>s. NaN) (field [''item'' \<mapsto> JStr ''papel''] ''stock'') = NaN"
    and i: "db ex_session \<and> field (ex_item 0 5) ''id'' = JStr ''i1'' \<and> valid_doc ex_session ''inventory'' ''i1''"
    by (simp_all add: ex_item_def field_def ex_session_eval ex_valid_doc_def)
  have slash: "\<not> (db ex_session \<and>
      (\<exists>k. field ((ex_item 3 5)(''id'' \<mapsto> JStr ''a/b'')) ''id'' = JStr k \<and> valid_doc ex_session ''inventory'' k))"
    and none: "\<not> (db ex_session \<and>
      (\<exists>k. field [''stock'' \<mapsto> JNum (Fin 3)] ''id'' = JStr k \<and> valid_doc ex_session ''inventory'' k))"
    by (simp_all add: field_def ex_session_eval ex_valid_doc_def)
  from h decrement_floor [of "\<lambda>s. NaN" "ex_item 0 5"]
  have zero: "decremented (\<lambda>s. NaN) (ex_item 0 5) = Fin 0"
    by blast
  from i decrement_floor [of "\<lambda>s. NaN" "ex_item 0 5" _ _ ex_session "''i1''"]
  have "decrement (\<lambda>s. NaN) (ex_item 0 5) ex_session
     = ex_session\<lparr> sent := sent ex_session @
         [UpdateDoc ''inventory'' (JStr ''i1'') [''stock'' \<mapsto> JNum (decremented (\<lambda>s. NaN) (ex_item 0 5))]] \<rparr>"
    by blast
  with zero have call: "sent (decrement (\<lambda>s. NaN) (ex_item 0 5) ex_session)
     = [UpdateDoc ''inventory'' (JStr ''i1'') [''stock'' \<mapsto> JNum (Fin 0)]]"
    by (simp add: ex_session_eval)
  from h3 decrement_floor [of "\<lambda>s. NaN" "ex_item 3 5" _ 3]
  have "decremented (\<lambda>s. NaN) (ex_item 3 5) = Fin (of_int (max 0 (3 - 1)))"
    by blast
  then have three: "decremented (\<lambda>s. NaN) (ex_item 3 5) = Fin 2"
    by simp
  from hh decrement_floor [of "\<lambda>s. NaN" "ex_item (5 / 2) 5" "5 / 2"]
  have "decremented (\<lambda>s. NaN) (ex_item (5 / 2) 5) = round_double (max 0 (5 / 2 - 1))"
    by blast
  moreover have "round_double (3 / 2) = Fin (3 / 2)"
    using round_double_representable [of "3 / 2" 3 "- 1"] by (simp add: pow2_def)
  ultimately have half: "decremented (\<lambda>s. NaN) (ex_item (5 / 2) 5) = Fin (3 / 2)"
    by simp
  from hi decrement_floor [of "\<lambda>s. NaN" "[''stock'' \<mapsto> JNum PosInfinity]"]
  have infinite: "decremented (\<lambda>s. NaN) [''stock'' \<mapsto> JNum PosInfinity] = PosInfinity"
    by blast
  from hn decrement_floor [of "\<lambda>s. NaN" "[''item'' \<mapsto> JStr ''papel'']"]
  have nan: "decremented (\<lambda>s. NaN) [''item'' \<mapsto> JStr ''papel''] = NaN"
    by blast
  from h3 have nn: "Number (\<lambda>s. NaN) (field (ex_item 3 5) ''stock'') \<noteq> NaN"
    by simp
  from nn decrement_floor [of "\<lambda>s. NaN" "ex_item 3 5"]
  have pos: "num_le (Fin 0) (decremented (\<lambda>s. NaN) (ex_item 3 5))"
    by blast
  from slash decrement_floor [of "\<lambda>s. NaN" "(ex_item 3 5)(''id'' \<mapsto> JStr ''a/b'')" _ _ ex_session]
  have s: "decrement (\<lambda>s. NaN) ((ex_item 3 5)(''id'' \<mapsto> JStr ''a/b'')) ex_session = ex_session"
    by blast
  from none decrement_floor [of "\<lambda>s. NaN" "[''stock'' \<mapsto> JNum (Fin 3)]" _ _ ex_session]
  have n: "decrement (\<lambda>s. NaN) [''stock'' \<mapsto> JNum (Fin 3)] ex_session = ex_session"
    by blast
  from h i zero pos call three half infinite nan s n show ?thesis
    by simp
qed

text \<open>
  Claim C7. For every \<open>addData(type, data)\<close>: the document sent is \<open>data\<close> extended with
  \<open>createdAt\<close>; when the store resolves the call the open modal is cleared; when the
  call fails the error is only logged, the modal stays as it was, and neither a snapshot
  nor a form is modified by the operation.

  The first three conjuncts are about the part of \<open>addData\<close> before its \<^verbatim>\<open>await\<close>,
  the last two about the part after it, in any state with a call in flight.
\<close>

theorem create_contract:
  "(db st \<longrightarrow>
      sent (addData type data now st) = sent st @ [AddDoc type (data(''createdAt'' \<mapsto> JStr now))] \<and>
      console (addData type data now st) = console st \<and>
      0 < awaiting (addData type data now st)) \<and>
   (\<not> db st \<longrightarrow>
      sent (addData type data now st) = sent st \<and>
      console (addData type data now st) = console st @ [''Error add:'']) \<and>
   isModalOpen (addData type data now st) = isModalOpen st \<and>
   snapshots (addData type data now st) = snapshots st \<and>
   forms (addData type data now st) = forms st \<and>
   (0 < awaiting st \<longrightarrow>
      isModalOpen (addData_settled Resolved st) = None \<and>
      console (addData_settled Resolved st) = console st \<and>
      snapshots (addData_settled Resolved st) = snapshots st \<and>
      forms (addData_settled Resolved st) = forms st \<and>
      sent (addData_settled Resolved st) = sent st) \<and>
   (0 < awaiting st \<longrightarrow>
      isModalOpen (addData_settled Rejected st) = isModalOpen st \<and>
      console (addData_settled Rejected st) = console st @ [''Error add:''] \<and>
      snapshots (addData_settled Rejected st) = snapshots st \<and>
      forms (addData_settled Rejected st) = forms st \<and>
      sent (addData_settled Rejected st) = sent st)"
  by (simp add: addData_def addData_settled_def snapshots_def forms_def)

lemma ex_open_eval:
  "db ex_open" "isModalOpen ex_open = Some ''order''" "sent ex_open = []" "console ex_open = []"
  by (simp_all add: ex_open_def ex_session_eval)

text \<open>The order form is saved with the modal open: once resolved, once rejected.\<close>

theorem create_contract_witness:
  "db ex_open \<and>
   0 < awaiting (addData ''orders'' (orderForm ex_open) ''2024-01-02T10:00:00.000Z'' ex_open) \<and>
   sent (addData ''orders'' (orderForm ex_open) ''2024-01-02T10:00:00.000Z'' ex_open)
     = [AddDoc ''orders'' ((orderForm ex_open)(''createdAt'' \<mapsto> JStr ''2024-01-02T10:00:00.000Z''))] \<and>
   isModalOpen (addData ''orders'' (orderForm ex_open) ''2024-01-02T10:00:00.000Z'' ex_open) = Some ''order'' \<and>
   isModalOpen (addData_settled Resolved
     (addData ''orders'' (orderForm ex_open) ''2024-01-02T10:00:00.000Z'' ex_open)) = None \<and>
   isModalOpen (addData_settled Rejected
     (addData ''orders'' (orderForm ex_open) ''2024-01-02T10:00:00.000Z'' ex_open)) = Some ''order'' \<and>
   console (addData_settled Rejected
     (addData ''orders'' (orderForm ex_open) ''2024-01-02T10:00:00.000Z'' ex_open)) = [''Error add:'']"
proof -
  let ?st = "addData ''orders'' (orderForm ex_open) ''2024-01-02T10:00:00.000Z'' ex_open"
  have d: "db ex_open" by (simp add: ex_open_eval)
  from d create_contract [of ex_open "''orders''" "orderForm ex_open" "''2024-01-02T10:00:00.000Z''"]
  have call: "sent ?st = sent ex_open @ [AddDoc ''orders'' ((orderForm ex_open)(''createdAt'' \<mapsto> JStr ''2024-01-02T10:00:00.000Z''))]"
    "console ?st = console ex_open" "0 < awaiting ?st" "isModalOpen ?st = isModalOpen ex_open"
    by blast+
  from call(3) create_contract [of ?st]
  have settle: "isModalOpen (addData_settled Resolved ?st) = None"
    "isModalOpen (addData_settled Rejected ?st) = isModalOpen ?st"
    "console (addData_settled Rejected ?st) = console ?st @ [''Error add:'']"
    by blast+
  from d call settle show ?thesis
    by (simp add: ex_open_eval)
qed

text \<open>
  Claim C8. Create, update and delete leave the local snapshots (orders, expenses,
  inventory) as they are, whether the store resolves or rejects the call: what a write
  did becomes visible only through a later notification of a synchronizer. Indeed no
  event other than a notification changes a snapshot.
\<close>

theorem writes_leave_snapshots:
  "snapshots (addData type data now st) = snapshots st \<and>
   snapshots (addData_settled r st) = snapshots st \<and>
   snapshots (updateStatus ident v st) = snapshots st \<and>
   snapshots (updateDoc coll ident flds st) = snapshots st \<and>
   snapshots (deleteItem type ident st) = snapshots st \<and>
   snapshots (decrement sn i st) = snapshots st \<and>
   snapshots (increment sn i st) = snapshots st \<and>
   ((\<forall>k docs. e \<noteq> SnapshotDelivered k docs) \<longrightarrow> snapshots (step sn e st) = snapshots st)"
proof -
  have upd: "snapshots (updateDoc c j f s) = snapshots s" for c j f s
    by (simp add: updateDoc_def snapshots_def)
  have add: "snapshots (addData t d n s) = snapshots s" for t d n s
    by (simp add: addData_def snapshots_def)
  have settled: "snapshots (addData_settled q s) = snapshots s" for q s
    by (simp add: addData_settled_def snapshots_def split: outcome.splits)
  have del: "snapshots (deleteItem t j s) = snapshots s" for t j s
    by (simp add: deleteItem_def deleteDoc_def snapshots_def split: option.splits)
  have status: "snapshots (updateStatus j w s) = snapshots s" for j w s
    by (simp add: updateStatus_def upd split: option.splits)
  have dec: "snapshots (decrement sn j s) = snapshots s" for j s
    by (simp add: decrement_def upd split: option.splits)
  have inc: "snapshots (increment sn j s) = snapshots s" for j s
    by (simp add: increment_def upd split: option.splits)
  have cleanup: "snapshots (run_cleanup s) = snapshots s" for s
    by (simp add: run_cleanup_def unsubscribe_def snapshots_def split: option.splits)
  have effect: "snapshots (run_effect s) = snapshots s" for s
    by (simp add: run_effect_def onSnapshot_def snapshots_def Let_def)
  have user_upd: "snapshots (s\<lparr> user := u \<rparr>) = snapshots s" for s u
    by (simp add: snapshots_def)
  have auth: "snapshots (setUser u s) = snapshots s" for u s
    by (simp add: setUser_def effect cleanup user_upd)
  have unm: "snapshots (unmount s) = snapshots s" for s
    using cleanup [of s] by (simp add: unmount_def snapshots_def)
  have err: "snapshots (deliver_error k s) = snapshots s" for k s
    by (simp add: deliver_error_def snapshots_def split: option.splits synchronizer.splits)
  have other: "snapshots (step sn e st) = snapshots st" if "\<forall>k docs. e \<noteq> SnapshotDelivered k docs"
    using that
    by (cases e)
      (simp_all add: auth unm err add settled del status dec inc, simp_all add: snapshots_def)
  show ?thesis
    using other by (simp add: add settled del upd status dec inc)
qed

theorem writes_leave_snapshots_witness:
  "(\<forall>k docs. UpdateStatus (JStr ''7'') (JStr ''Entregado'') \<noteq> SnapshotDelivered k docs) \<and>
   snapshots ex_loaded = ([to_record (ex_doc ''7'')], [], []) \<and>
   snapshots (step (\<lambda>s. NaN) (UpdateStatus (JStr ''7'') (JStr ''Entregado'')) ex_loaded)
     = ([to_record (ex_doc ''7'')], [], [])"
proof -
  have h: "\<forall>k docs. UpdateStatus (JStr ''7'') (JStr ''Entregado'') \<noteq> SnapshotDelivered k docs"
    by simp
  have s: "snapshots ex_loaded = ([to_record (ex_doc ''7'')], [], [])"
    by (simp add: ex_loaded_def snapshots_def deliver_def ex_session_eval
        ex_session_def init_def setUser_def run_cleanup_def run_effect_def onSnapshot_def Let_def)
  from h writes_leave_snapshots [where st = ex_loaded and sn = "\<lambda>s. NaN"
      and e = "UpdateStatus (JStr ''7'') (JStr ''Entregado'')"]
  have "snapshots (step (\<lambda>s. NaN) (UpdateStatus (JStr ''7'') (JStr ''Entregado'')) ex_loaded)
          = snapshots ex_loaded"
    by blast
  with h s show ?thesis by simp
qed

section \<open>Teardown\<close>

text \<open>Every state the component reaches from its initial one is well formed.\<close>

lemma well_formed_init: "well_formed (init d v today)"
  by (simp add: well_formed_def init_def)

lemma well_formed_unsubscribe: "well_formed st \<Longrightarrow> well_formed (unsubscribe k st)"
  by (auto simp: well_formed_def unsubscribe_def split: option.splits)

lemma well_formed_run_cleanup: "well_formed st \<Longrightarrow> well_formed (run_cleanup st)"
  by (auto simp: well_formed_def run_cleanup_def unsubscribe_def split: option.splits)

lemma well_formed_run_effect: "well_formed st \<Longrightarrow> well_formed (run_effect st)"
  by (auto simp: well_formed_def run_effect_def onSnapshot_def Let_def split: option.splits)

lemma well_formed_user_upd: "well_formed (st\<lparr> user := u \<rparr>) = well_formed st"
  by (simp add: well_formed_def split: option.splits)

lemma well_formed_setUser: "well_formed st \<Longrightarrow> well_formed (setUser u st)"
  by (simp add: setUser_def well_formed_run_effect well_formed_run_cleanup well_formed_user_upd)

lemma well_formed_mounted_upd: "well_formed (st\<lparr> mounted := m \<rparr>) = well_formed st"
  by (simp add: well_formed_def split: option.splits)

lemma well_formed_unmount: "well_formed st \<Longrightarrow> well_formed (unmount st)"
  by (simp add: unmount_def well_formed_mounted_upd well_formed_run_cleanup)

lemma well_formed_step: "well_formed st \<Longrightarrow> well_formed (step sn e st)"
proof (cases e)
  case (AuthStateChanged u)
  assume "well_formed st"
  with AuthStateChanged show ?thesis by (simp add: well_formed_setUser)
next
  case Unmount
  assume "well_formed st"
  with Unmount show ?thesis by (simp add: well_formed_unmount)
qed (auto simp: well_formed_def deliver_def deliver_error_def addData_def addData_settled_def
      updateStatus_def updateDoc_def deleteItem_def deleteDoc_def decrement_def increment_def
      split: option.splits synchronizer.splits outcome.splits)

lemma detached_unsubscribe: "detached k st \<Longrightarrow> detached k (unsubscribe j st)"
  by (auto simp: detached_def unsubscribe_def)

lemma detached_run_cleanup: "detached k st \<Longrightarrow> detached k (run_cleanup st)"
  by (auto simp: detached_def run_cleanup_def unsubscribe_def split: option.splits)

lemma detached_run_effect: "detached k st \<Longrightarrow> detached k (run_effect st)"
  by (auto simp: detached_def run_effect_def onSnapshot_def Let_def)

lemma detached_user_upd: "detached k (st\<lparr> user := u \<rparr>) = detached k st"
  by (simp add: detached_def)

lemma detached_setUser: "detached k st \<Longrightarrow> detached k (setUser u st)"
  by (simp add: setUser_def detached_run_effect detached_run_cleanup detached_user_upd)

lemma detached_mounted_upd: "detached k (st\<lparr> mounted := m \<rparr>) = detached k st"
  by (simp add: detached_def)

lemma detached_unmount: "detached k st \<Longrightarrow> detached k (unmount st)"
  by (simp add: unmount_def detached_mounted_upd detached_run_cleanup)

lemma detached_step: "detached k st \<Longrightarrow> detached k (step sn e st)"
proof (cases e)
  case (AuthStateChanged u)
  assume "detached k st"
  with AuthStateChanged show ?thesis by (simp add: detached_setUser)
next
  case Unmount
  assume "detached k st"
  with Unmount show ?thesis by (simp add: detached_unmount)
qed (auto simp: detached_def deliver_def deliver_error_def addData_def addData_settled_def
      updateStatus_def updateDoc_def deleteItem_def deleteDoc_def decrement_def increment_def
      split: option.splits synchronizer.splits outcome.splits)

lemma detached_run: "detached k st \<Longrightarrow> detached k (run sn es st)"
  by (induction es arbitrary: st) (simp_all add: detached_step)

lemma detached_deliver:
  assumes "detached k st"
  shows "deliver k docs st = st"
proof -
  from assms have "map_of (listeners st) k = None"
    by (simp add: detached_def map_of_eq_None_iff)
  then show ?thesis
    by (simp add: deliver_def)
qed

lemma cleanup_detaches:
  assumes "well_formed st" and "cleanup st = Some (a, b, c)" and "k \<in> {a, b, c}"
  shows "detached k (run_cleanup st)"
  using assms by (auto simp: detached_def well_formed_def run_cleanup_def unsubscribe_def)

lemma teardown_event_detaches:
  assumes "well_formed st" and "mounted st" and "cleanup st = Some (a, b, c)" and "k \<in> {a, b, c}"
    and "e = Unmount \<or> (\<exists>u. e = AuthStateChanged u \<and> u \<noteq> user st)"
  shows "detached k (step sn e st)"
proof -
  have d: "detached k (run_cleanup st)"
    using assms(1,3,4) by (rule cleanup_detaches)
  from assms(5) show ?thesis
  proof
    assume "e = Unmount"
    with d assms(2) show ?thesis by (simp add: unmount_def detached_mounted_upd)
  next
    assume "\<exists>u. e = AuthStateChanged u \<and> u \<noteq> user st"
    then obtain u where e: "e = AuthStateChanged u" and u: "u \<noteq> user st" by blast
    have "run_cleanup (st\<lparr> user := u \<rparr>) = (run_cleanup st)\<lparr> user := u \<rparr>"
      by (simp add: run_cleanup_def unsubscribe_def split: option.splits)
    with d have "detached k (run_cleanup (st\<lparr> user := u \<rparr>))"
      by (simp add: detached_user_upd)
    then have "detached k (run_effect (run_cleanup (st\<lparr> user := u \<rparr>)))"
      by (rule detached_run_effect)
    with e u assms(2) show ?thesis by (simp add: setUser_def)
  qed
qed

lemma well_formed_run: "well_formed st \<Longrightarrow> well_formed (run sn es st)"
  by (induction es arbitrary: st) (simp_all add: well_formed_step)

text \<open>
  Claim C9. After a synchronizer has been torn down (the unsubscribe function of its
  listener was called, on a change of session or when the component unmounts), no
  notification delivered later for it is reflected in the snapshots: whatever events
  follow, a delivery to that listener leaves the whole state as it is.
\<close>

theorem teardown_silences:
  assumes "well_formed st" and "mounted st" and "cleanup st = Some (a, b, c)" and "k \<in> {a, b, c}"
    and "e = Unmount \<or> (\<exists>u. e = AuthStateChanged u \<and> u \<noteq> user st)"
  shows "step sn (SnapshotDelivered k docs) (run sn es (step sn e st)) = run sn es (step sn e st)"
proof -
  have "detached k (step sn e st)"
    using assms by (rule teardown_event_detaches)
  then have "detached k (run sn es (step sn e st))"
    by (rule detached_run)
  then show ?thesis
    by (simp add: detached_deliver)
qed

lemma well_formed_ex_session: "well_formed ex_session"
  by (simp add: well_formed_def ex_session_eval)

text \<open>
  Signed in, a delivery to listener 0 fills the orders; after the unmount, and a
  delivery to listener 1 in between, the same delivery changes nothing.
\<close>

theorem teardown_silences_witness:
  "well_formed ex_session \<and> mounted ex_session \<and> cleanup ex_session = Some (0, 1, 2) \<and>
   orders (step (\<lambda>s. NaN) (SnapshotDelivered 0 [ex_doc ''7'']) ex_session) = [to_record (ex_doc ''7'')] \<and>
   step (\<lambda>s. NaN) (SnapshotDelivered 0 [ex_doc ''7''])
       (run (\<lambda>s. NaN) [SnapshotDelivered 1 [ex_doc ''8'']] (step (\<lambda>s. NaN) Unmount ex_session))
     = run (\<lambda>s. NaN) [SnapshotDelivered 1 [ex_doc ''8'']] (step (\<lambda>s. NaN) Unmount ex_session)"
proof -
  have h: "well_formed ex_session" "mounted ex_session" "cleanup ex_session = Some (0, 1, 2)"
    by (simp_all add: well_formed_ex_session ex_session_eval)
  have k: "(0::nat) \<in> {0, 1, 2}" by simp
  have e: "Unmount = Unmount \<or> (\<exists>u. Unmount = AuthStateChanged u \<and> u \<noteq> user ex_session)" by simp
  have before: "orders (step (\<lambda>s. NaN) (SnapshotDelivered 0 [ex_doc ''7'']) ex_session) = [to_record (ex_doc ''7'')]"
    by (simp add: deliver_def ex_session_eval)
  from teardown_silences [OF h k e, of "\<lambda>s. NaN" "[ex_doc ''7'']" "[SnapshotDelivered 1 [ex_doc ''8'']]"] h before
  show ?thesis by simp
qed

end
